theory Spec2Isabelle
  imports Main "HOL-Library.Sublist" "HOL-Library.Multiset"
begin

section \<open>Data model\<close>

text \<open>
  The validator of \<^verbatim>\<open>pkg/apis/pipeline/v1alpha1/task_validation.go\<close> reads a
  deserialised task specification and returns \<^verbatim>\<open>*apis.FieldError\<close>, which is
  \<^verbatim>\<open>nil\<close> when the specification is accepted. Go strings are byte strings and are
  modelled as \<^typ>\<open>string\<close>; a nil or empty slice is the empty list; a pointer that may
  be nil is an \<^typ>\<open>'a option\<close>; a \<^verbatim>\<open>map[string]struct{}\<close> is a set of strings.
\<close>

subsection \<open>Field errors\<close>

text \<open>
  The message of a field error is built with \<^verbatim>\<open>fmt.Sprintf\<close>. The model keeps the
  format (one constructor for each format string of the file) and its arguments instead
  of the rendered text.
\<close>

datatype message =
    MissingFields
      \<comment> \<open>\<^verbatim>\<open>apis.ErrMissingField\<close>\<close>
  | ExpectedExactlyOne
      \<comment> \<open>\<^verbatim>\<open>apis.ErrMultipleOneOf\<close>\<close>
  | InvalidValue string
      \<comment> \<open>\<^verbatim>\<open>apis.ErrInvalidValue(value, path)\<close>\<close>
  | MergeError string
      \<comment> \<open>error merging step template and steps: \<^verbatim>\<open>%s\<close>\<close>
  | InvalidStepName string
      \<comment> \<open>invalid value \<^verbatim>\<open>%q\<close> (step name that is no DNS label)\<close>
  | WorkspaceNameNotUnique string
      \<comment> \<open>workspace name \<^verbatim>\<open>%q\<close> must be unique\<close>
  | WorkspaceMountPathNotUnique string
      \<comment> \<open>workspace mount path \<^verbatim>\<open>%q\<close> must be unique\<close>
  | MultipleVolumes string
      \<comment> \<open>multiple volumes with same name \<^verbatim>\<open>%q\<close>\<close>
  | ScriptWithCommand nat
      \<comment> \<open>step \<^verbatim>\<open>%d\<close> script cannot be used with command\<close>
  | MountUnderTekton nat string string
      \<comment> \<open>step \<^verbatim>\<open>%d\<close> volumeMount cannot be mounted under /tekton/
          (volumeMount \<^verbatim>\<open>%q\<close> mounted at \<^verbatim>\<open>%q\<close>)\<close>
  | MountNameReserved nat string
      \<comment> \<open>step \<^verbatim>\<open>%d\<close> volumeMount name \<^verbatim>\<open>%q\<close> cannot start with tekton-internal-\<close>
  | DefaultTypeMismatch string string
      \<comment> \<open>\<^verbatim>\<open>%v\<close> type does not match default value's type: \<^verbatim>\<open>%v\<close>\<close>
  | NonExistentVariable string string string
      \<comment> \<open>a reference to an undeclared variable: field value, object kind, field name\<close>
  | ProhibitedVariable string string string
      \<comment> \<open>a reference to a variable that must not be used in the field\<close>
  | NotIsolatedVariable string string string
      \<comment> \<open>a reference to a variable that is not the whole field\<close>
  | OtherMessage string
      \<comment> \<open>a message produced by a collaborator outside this file\<close>

record FieldError =
  Message :: message
  Paths :: "string list"
  Details :: string

definition CurrentField :: string where
  "CurrentField = ''''"

definition ErrMissingField :: "string list \<Rightarrow> FieldError" where
  "ErrMissingField fieldPaths = \<lparr>Message = MissingFields, Paths = fieldPaths, Details = ''''\<rparr>"

definition ErrMultipleOneOf :: "string list \<Rightarrow> FieldError" where
  "ErrMultipleOneOf fieldPaths = \<lparr>Message = ExpectedExactlyOne, Paths = fieldPaths, Details = ''''\<rparr>"

definition ErrInvalidValue :: "string \<Rightarrow> string \<Rightarrow> FieldError" where
  "ErrInvalidValue v fieldPath = \<lparr>Message = InvalidValue v, Paths = [fieldPath], Details = ''''\<rparr>"

text \<open>
  The method \<^verbatim>\<open>ViaField\<close> of a field error prefixes every path; on \<^verbatim>\<open>nil\<close> it
  returns \<^verbatim>\<open>nil\<close>. A path that is the current field becomes the prefix itself, and a
  path that starts with a bracketed index is appended without a dot.
\<close>

definition flatten :: "string \<Rightarrow> string \<Rightarrow> string" where
  "flatten pre p =
     (if p = CurrentField then pre
      else if hd p = CHR ''['' then pre @ p
      else pre @ ''.'' @ p)"

definition ViaField :: "string \<Rightarrow> FieldError option \<Rightarrow> FieldError option" where
  "ViaField pre err =
     (case err of None \<Rightarrow> None
      | Some fe \<Rightarrow> Some (fe\<lparr>Paths := map (flatten pre) (Paths fe)\<rparr>))"

subsection \<open>Steps, parameters, resources, workspaces\<close>

record VolumeMount =
  vmName :: string
  vmMountPath :: string
  vmSubPath :: string

record EnvVar =
  envName :: string
  envValue :: string

text \<open>
  A step embeds a container (\<^verbatim>\<open>corev1.Container\<close>) and adds the script; the step
  template is a container. Only the fields that the validator reads are kept.
\<close>

record Container =
  Name :: string
  Image :: string
  Command :: "string list"
  Args :: "string list"
  WorkingDir :: string
  Env :: "EnvVar list"
  VolumeMounts :: "VolumeMount list"

record Step = Container +
  Script :: string

record Volume =
  volName :: string

record WorkspaceDeclaration =
  wsName :: string
  wsMountPath :: string

type_synonym ParamType = string

record ArrayOrString =
  aosType :: ParamType
  aosStringVal :: string
  aosArrayVal :: "string list"

record ParamSpec =
  psName :: string
  psType :: ParamType
  psDefault :: "ArrayOrString option"

type_synonym PipelineResourceType = string

record TaskResource =
  trName :: string
  trType :: PipelineResourceType

record Inputs =
  inResources :: "TaskResource list"
  inParams :: "ParamSpec list"

record Outputs =
  outResources :: "TaskResource list"

record TaskResources =
  resInputs :: "TaskResource list"
  resOutputs :: "TaskResource list"

text \<open>
  Modelled from the spec: the declaration of \<^verbatim>\<open>TaskSpec\<close> is not part of the sources.
  The record has the collections that the specification holds according to the data
  model (steps, volumes, workspace declarations, parameter declarations, the legacy
  input and output lists, the new-style resources) and the step template, which are
  exactly the fields \<^verbatim>\<open>TaskSpec.Validate\<close> reads.
\<close>

record TaskSpec =
  Resources :: "TaskResources option"
  Params :: "ParamSpec list"
  Steps :: "Step list"
  Volumes :: "Volume list"
  StepTemplate :: "Container option"
  Workspaces :: "WorkspaceDeclaration list"
  Inputs :: "Inputs option"
  Outputs :: "Outputs option"

text \<open>
  Modelled from the spec: the parameter type constants are declared outside the sources;
  the declared type of a parameter is one of \<^verbatim>\<open>string\<close> and \<^verbatim>\<open>array\<close>.
\<close>

definition ParamTypeString :: ParamType where
  "ParamTypeString = ''string''"

definition ParamTypeArray :: ParamType where
  "ParamTypeArray = ''array''"

definition AllParamTypes :: "ParamType list" where
  "AllParamTypes = [ParamTypeString, ParamTypeArray]"

subsection \<open>Library functions on strings\<close>

text \<open>\<^verbatim>\<open>strings.HasPrefix(s, prefix)\<close>.\<close>

definition HasPrefix :: "string \<Rightarrow> string \<Rightarrow> bool" where
  "HasPrefix s p = prefix p s"

text \<open>
  \<^verbatim>\<open>filepath.Clean\<close> of the Go standard library on a Unix target, by its documented
  rules: repeated separators count once, \<^verbatim>\<open>.\<close> elements are dropped, an inner
  \<^verbatim>\<open>..\<close> element is dropped together with the element before it, \<^verbatim>\<open>..\<close>
  elements at the beginning of a rooted path are dropped, and the empty result is
  \<^verbatim>\<open>.\<close>; the result ends in a slash only when it is the root.
\<close>

fun splitOn :: "char \<Rightarrow> string \<Rightarrow> string list" where
  "splitOn c [] = [[]]"
| "splitOn c (x # xs) =
     (if x = c then [] # splitOn c xs
      else (case splitOn c xs of [] \<Rightarrow> [[x]] | y # ys \<Rightarrow> (x # y) # ys))"

fun joinWith :: "char \<Rightarrow> string list \<Rightarrow> string" where
  "joinWith c [] = []"
| "joinWith c [e] = e"
| "joinWith c (e # es) = e @ c # joinWith c es"

text \<open>The elements kept so far are held in reverse order in \<open>out\<close>.\<close>

fun cleanElems :: "bool \<Rightarrow> string list \<Rightarrow> string list \<Rightarrow> string list" where
  "cleanElems rooted out [] = rev out"
| "cleanElems rooted out (e # es) =
     (if e = '''' \<or> e = ''.'' then cleanElems rooted out es
      else if e = ''..'' then
        (case out of
           [] \<Rightarrow> if rooted then cleanElems rooted [] es else cleanElems rooted [''..''] es
         | t # ts \<Rightarrow>
             if t = ''..'' then cleanElems rooted (''..'' # out) es
             else cleanElems rooted ts es)
      else cleanElems rooted (e # out) es)"

definition Clean :: "string \<Rightarrow> string" where
  "Clean path =
     (if path = '''' then ''.''
      else
        let rooted = (hd path = CHR ''/'');
            body = joinWith (CHR ''/'') (cleanElems rooted [] (splitOn (CHR ''/'') path));
            out = (if rooted then CHR ''/'' # body else body)
        in if out = '''' then ''.'' else out)"

section \<open>Volumes and workspaces\<close>

text \<open>The loop of \<^verbatim>\<open>ValidateVolumes\<close> with the set \<open>vols\<close> of the names seen so far.\<close>

fun validateVolumesFrom :: "string set \<Rightarrow> Volume list \<Rightarrow> FieldError option" where
  "validateVolumesFrom vols [] = None"
| "validateVolumesFrom vols (v # vs) =
     (if volName v \<in> vols
      then Some \<lparr>Message = MultipleVolumes (volName v), Paths = [''name''], Details = ''''\<rparr>
      else validateVolumesFrom (insert (volName v) vols) vs)"

definition ValidateVolumes :: "Volume list \<Rightarrow> FieldError option" where
  "ValidateVolumes volumes = validateVolumesFrom {} volumes"

text \<open>
  The first part of \<^verbatim>\<open>validateDeclaredWorkspaces\<close>: the cleaned mount paths of the
  volume mounts of every step, then of the step template when there is one.
\<close>

definition addMountPaths :: "VolumeMount list \<Rightarrow> string set \<Rightarrow> string set" where
  "addMountPaths vms mountPaths = fold (\<lambda>vm mp. insert (Clean (vmMountPath vm)) mp) vms mountPaths"

definition declaredMountPaths :: "Step list \<Rightarrow> Container option \<Rightarrow> string set" where
  "declaredMountPaths steps stepTemplate =
     (let mountPaths = fold (\<lambda>step mp. addMountPaths (VolumeMounts step) mp) steps {}
      in case stepTemplate of
           None \<Rightarrow> mountPaths
         | Some t \<Rightarrow> addMountPaths (VolumeMounts t) mountPaths)"

text \<open>
  The loop over the workspaces. \<^verbatim>\<open>WorkspaceDeclaration.GetMountPath\<close> is declared
  outside the sources and is the parameter \<open>getMountPath\<close>: the mount path of the
  declaration, or its default when none is set.
\<close>

fun validateWorkspacesFrom ::
  "(WorkspaceDeclaration \<Rightarrow> string) \<Rightarrow> string set \<Rightarrow> string set \<Rightarrow>
     WorkspaceDeclaration list \<Rightarrow> FieldError option" where
  "validateWorkspacesFrom getMountPath wsNames mountPaths [] = None"
| "validateWorkspacesFrom getMountPath wsNames mountPaths (w # ws) =
     (if wsName w \<in> wsNames
      then Some \<lparr>Message = WorkspaceNameNotUnique (wsName w),
                 Paths = [''workspaces.name''], Details = ''''\<rparr>
      else
        let mountPath = Clean (getMountPath w)
        in if mountPath \<in> mountPaths
           then Some \<lparr>Message = WorkspaceMountPathNotUnique mountPath,
                      Paths = [''workspaces.mountpath''], Details = ''''\<rparr>
           else validateWorkspacesFrom getMountPath (insert (wsName w) wsNames)
                  (insert mountPath mountPaths) ws)"

definition validateDeclaredWorkspaces ::
  "(WorkspaceDeclaration \<Rightarrow> string) \<Rightarrow> WorkspaceDeclaration list \<Rightarrow> Step list \<Rightarrow>
     Container option \<Rightarrow> FieldError option" where
  "validateDeclaredWorkspaces getMountPath workspaces steps stepTemplate =
     validateWorkspacesFrom getMountPath {} (declaredMountPaths steps stepTemplate) workspaces"

section \<open>Step checks\<close>

text \<open>
  The loop over the volume mounts of step \<open>idx\<close> in \<^verbatim>\<open>validateSteps\<close>: the
  reserved path test on the mount path as written, then the reserved name test.
\<close>

fun validateVolumeMounts :: "nat \<Rightarrow> VolumeMount list \<Rightarrow> FieldError option" where
  "validateVolumeMounts idx [] = None"
| "validateVolumeMounts idx (vm # vms) =
     (if HasPrefix (vmMountPath vm) ''/tekton/'' \<and> \<not> HasPrefix (vmMountPath vm) ''/tekton/home''
      then Some \<lparr>Message = MountUnderTekton idx (vmName vm) (vmMountPath vm),
                 Paths = [''volumeMounts.mountPath''], Details = ''''\<rparr>
      else if HasPrefix (vmName vm) ''tekton-internal-''
      then Some \<lparr>Message = MountNameReserved idx (vmName vm),
                 Paths = [''volumeMounts.name''], Details = ''''\<rparr>
      else validateVolumeMounts idx vms)"

text \<open>
  The loop of \<^verbatim>\<open>validateSteps\<close> from step \<open>idx\<close> on, with the set \<open>names\<close> of the
  non-empty step names seen so far.
\<close>

fun validateStepsFrom :: "string set \<Rightarrow> nat \<Rightarrow> Step list \<Rightarrow> FieldError option" where
  "validateStepsFrom names idx [] = None"
| "validateStepsFrom names idx (s # ss) =
     (if Image s = '''' then Some (ErrMissingField [''Image''])
      else if Script s \<noteq> '''' \<and> Command s \<noteq> []
      then Some \<lparr>Message = ScriptWithCommand idx, Paths = [''script''], Details = ''''\<rparr>
      else if Name s \<noteq> '''' \<and> Name s \<in> names
      then Some (ErrInvalidValue (Name s) ''name'')
      else (case validateVolumeMounts idx (VolumeMounts s) of
              Some e \<Rightarrow> Some e
            | None \<Rightarrow>
                validateStepsFrom (if Name s \<noteq> '''' then insert (Name s) names else names)
                  (Suc idx) ss))"

definition validateSteps :: "Step list \<Rightarrow> FieldError option" where
  "validateSteps steps = validateStepsFrom {} 0 steps"

section \<open>Sequencing of checks\<close>

text \<open>
  \<^verbatim>\<open>if err := a; err != nil { return err }\<close> followed by \<open>b\<close>: the first error
  is returned.
\<close>

definition orElse :: "FieldError option \<Rightarrow> FieldError option \<Rightarrow> FieldError option" where
  "orElse a b = (case a of Some e \<Rightarrow> Some e | None \<Rightarrow> b)"

text \<open>
  \<^verbatim>\<open>for _, x := range xs { if err := f(x); err != nil { return err } }\<close>; a loop
  that also uses the index ranges over \<^term>\<open>enumerate 0 xs\<close>.
\<close>

fun firstError :: "('a \<Rightarrow> FieldError option) \<Rightarrow> 'a list \<Rightarrow> FieldError option" where
  "firstError f [] = None"
| "firstError f (x # xs) = (case f x of Some e \<Rightarrow> Some e | None \<Rightarrow> firstError f xs)"

text \<open>\<^verbatim>\<open>fmt.Sprintf("%d", n)\<close> for an index.\<close>

definition digitChar :: "nat \<Rightarrow> char" where
  "digitChar n = ''0123456789'' ! (n mod 10)"

function itoa :: "nat \<Rightarrow> string" where
  "itoa n = (if n < 10 then [digitChar n] else itoa (n div 10) @ [digitChar (n mod 10)])"
  by pat_completeness auto
termination
  by (relation "measure id") auto

declare itoa.simps [simp del]

section \<open>Legacy parameter declarations\<close>

text \<open>The loop of \<^verbatim>\<open>validateInputParameterTypes\<close> over \<^verbatim>\<open>inputs.Params\<close>.\<close>

fun validateParamTypesFrom :: "ParamSpec list \<Rightarrow> FieldError option" where
  "validateParamTypesFrom [] = None"
| "validateParamTypesFrom (p # ps) =
     (let validType =
            fold (\<lambda>allowedType valid. if psType p = allowedType then True else valid)
              AllParamTypes False
      in if \<not> validType
         then Some (ErrInvalidValue (psType p) (''taskspec.inputs.params.'' @ psName p @ ''.type''))
         else
           (case psDefault p of
              None \<Rightarrow> validateParamTypesFrom ps
            | Some d \<Rightarrow>
                if aosType d \<noteq> psType p
                then Some \<lparr>Message = DefaultTypeMismatch (psType p) (aosType d),
                           Paths = [''taskspec.inputs.params.'' @ psName p @ ''.type'',
                                    ''taskspec.inputs.params.'' @ psName p @ ''.default.type''],
                           Details = ''''\<rparr>
                else validateParamTypesFrom ps))"

definition validateInputParameterTypes :: "Inputs \<Rightarrow> FieldError option" where
  "validateInputParameterTypes inputs = validateParamTypesFrom (inParams inputs)"

section \<open>Variable references\<close>

subsection \<open>The reference scanner\<close>

text \<open>
  Modelled from the spec: the package \<^verbatim>\<open>substitution\<close> is not part of the sources.
  The scanner locates every substring of a field value that is a placeholder
  \<^verbatim>\<open>$(<scope>.<name>)\<close> for one of the scopes of the alternation it is given, possibly
  inside surrounding text, and reports the name and the span of each match. Text that
  is not a well-formed placeholder is plain text. The spec leaves the characters of a
  name open; here a name is a non-empty run of letters, digits, underscores and hyphens.
\<close>

definition isNameChar :: "char \<Rightarrow> bool" where
  "isNameChar c =
     (c \<in> set ''abcdefghijklmnopqrstuvwxyzABCDEFGHIJKLMNOPQRSTUVWXYZ0123456789_-'')"

record varMatch =
  mName :: string
  mStart :: nat
  mEnd :: nat

text \<open>A placeholder of scope \<open>sc\<close> at the beginning of \<open>s\<close>: its name and its length.\<close>

definition matchScope :: "string \<Rightarrow> string \<Rightarrow> (string \<times> nat) option" where
  "matchScope sc s =
     (let opening = ''$('' @ sc @ ''.''
      in if prefix opening s
         then
           let rest = drop (length opening) s;
               nm = takeWhile isNameChar rest
           in if nm \<noteq> [] \<and> prefix '')'' (drop (length nm) rest)
              then Some (nm, length opening + length nm + 1)
              else None
         else None)"

fun matchAt :: "string list \<Rightarrow> string \<Rightarrow> (string \<times> nat) option" where
  "matchAt [] s = None"
| "matchAt (sc # scs) s =
     (case matchScope sc s of Some r \<Rightarrow> Some r | None \<Rightarrow> matchAt scs s)"

fun scanFrom :: "string list \<Rightarrow> nat \<Rightarrow> string \<Rightarrow> varMatch list" where
  "scanFrom scs i [] = []"
| "scanFrom scs i (c # cs) =
     (case matchAt scs (c # cs) of
        None \<Rightarrow> scanFrom scs (Suc i) cs
      | Some (nm, n) \<Rightarrow> \<lparr>mName = nm, mStart = i, mEnd = i + n\<rparr> # scanFrom scs (Suc i) cs)"

definition extractVariables :: "string list \<Rightarrow> string \<Rightarrow> varMatch list" where
  "extractVariables scs v = scanFrom scs 0 v"

text \<open>A whole-field reference spans the entire field value.\<close>

definition isWholeField :: "string \<Rightarrow> varMatch \<Rightarrow> bool" where
  "isWholeField v m = (mStart m = 0 \<and> mEnd m = length v)"

text \<open>
  Modelled from the spec: \<^verbatim>\<open>substitution.ValidateVariable\<close> (the analysis
  \<^verbatim>\<open>findUndeclared\<close>) reports a matched name that is not in the namespace as an
  unresolved reference; the path of the error is the object context followed by the
  name of the field.
\<close>

definition ValidateVariable ::
  "string \<Rightarrow> string \<Rightarrow> string list \<Rightarrow> string \<Rightarrow> string \<Rightarrow> string set \<Rightarrow> FieldError option" where
  "ValidateVariable name v scs locationName path vars =
     (if list_ex (\<lambda>m. mName m \<notin> vars) (extractVariables scs v)
      then Some \<lparr>Message = NonExistentVariable v locationName name,
                 Paths = [path @ ''.'' @ name], Details = ''''\<rparr>
      else None)"

text \<open>
  Modelled from the spec: \<^verbatim>\<open>substitution.ValidateVariableProhibited\<close> (the analysis
  \<^verbatim>\<open>findProhibitedArrayUse\<close>) reports a reference to one of the given names used at
  all in the field.
\<close>

definition ValidateVariableProhibited ::
  "string \<Rightarrow> string \<Rightarrow> string list \<Rightarrow> string \<Rightarrow> string \<Rightarrow> string set \<Rightarrow> FieldError option" where
  "ValidateVariableProhibited name v scs locationName path vars =
     (if list_ex (\<lambda>m. mName m \<in> vars) (extractVariables scs v)
      then Some \<lparr>Message = ProhibitedVariable v locationName name,
                 Paths = [path @ ''.'' @ name], Details = ''''\<rparr>
      else None)"

text \<open>
  Modelled from the spec: \<^verbatim>\<open>substitution.ValidateVariableIsolated\<close> (the analysis
  \<^verbatim>\<open>findNonIsolatedArrayUse\<close>) reports a reference to one of the given names that is
  not the whole field.
\<close>

definition ValidateVariableIsolated ::
  "string \<Rightarrow> string \<Rightarrow> string list \<Rightarrow> string \<Rightarrow> string \<Rightarrow> string set \<Rightarrow> FieldError option" where
  "ValidateVariableIsolated name v scs locationName path vars =
     (if list_ex (\<lambda>m. mName m \<in> vars \<and> \<not> isWholeField v m) (extractVariables scs v)
      then Some \<lparr>Message = NotIsolatedVariable v locationName name,
                 Paths = [path @ ''.'' @ name], Details = ''''\<rparr>
      else None)"

subsection \<open>The checks of one field\<close>

text \<open>
  The scope pattern \<^verbatim>\<open>"(?:inputs|outputs)."+prefix\<close> that the three functions below
  pass on is the alternation of \<^verbatim>\<open>inputs.<prefix>\<close> and \<^verbatim>\<open>outputs.<prefix>\<close>.
\<close>

definition scopePattern :: "string \<Rightarrow> string list" where
  "scopePattern pre = [''inputs.'' @ pre, ''outputs.'' @ pre]"

definition validateTaskVariable ::
  "string \<Rightarrow> string \<Rightarrow> string \<Rightarrow> string set \<Rightarrow> FieldError option" where
  "validateTaskVariable name v pre vars =
     ValidateVariable name v (scopePattern pre) ''step'' ''taskspec.steps'' vars"

definition validateTaskNoArrayReferenced ::
  "string \<Rightarrow> string \<Rightarrow> string \<Rightarrow> string set \<Rightarrow> FieldError option" where
  "validateTaskNoArrayReferenced name v pre arrayNames =
     ValidateVariableProhibited name v (scopePattern pre) ''step'' ''taskspec.steps'' arrayNames"

definition validateTaskArraysIsolated ::
  "string \<Rightarrow> string \<Rightarrow> string \<Rightarrow> string set \<Rightarrow> FieldError option" where
  "validateTaskArraysIsolated name v pre arrayNames =
     ValidateVariableIsolated name v (scopePattern pre) ''step'' ''taskspec.steps'' arrayNames"

subsection \<open>The walk over the fields of every step\<close>

definition validateArrayUsage :: "Step list \<Rightarrow> string \<Rightarrow> string set \<Rightarrow> FieldError option" where
  "validateArrayUsage steps pre vars =
     firstError (\<lambda>step.
       orElse (validateTaskNoArrayReferenced ''name'' (Name step) pre vars)
      (orElse (validateTaskNoArrayReferenced ''image'' (Image step) pre vars)
      (orElse (validateTaskNoArrayReferenced ''workingDir'' (WorkingDir step) pre vars)
      (orElse (firstError (\<lambda>(i, cmd).
                 validateTaskArraysIsolated (''command['' @ itoa i @ '']'') cmd pre vars)
               (enumerate 0 (Command step)))
      (orElse (firstError (\<lambda>(i, arg).
                 validateTaskArraysIsolated (''arg['' @ itoa i @ '']'') arg pre vars)
               (enumerate 0 (Args step)))
      (orElse (firstError (\<lambda>env.
                 validateTaskNoArrayReferenced (''env['' @ envName env @ '']'') (envValue env) pre vars)
               (Env step))
              (firstError (\<lambda>(i, v).
                 orElse (validateTaskNoArrayReferenced
                           (''volumeMount['' @ itoa i @ ''].Name'') (vmName v) pre vars)
                (orElse (validateTaskNoArrayReferenced
                           (''volumeMount['' @ itoa i @ ''].MountPath'') (vmMountPath v) pre vars)
                        (validateTaskNoArrayReferenced
                           (''volumeMount['' @ itoa i @ ''].SubPath'') (vmSubPath v) pre vars)))
               (enumerate 0 (VolumeMounts step))))))))) steps"

definition validateVariables :: "Step list \<Rightarrow> string \<Rightarrow> string set \<Rightarrow> FieldError option" where
  "validateVariables steps pre vars =
     firstError (\<lambda>step.
       orElse (validateTaskVariable ''name'' (Name step) pre vars)
      (orElse (validateTaskVariable ''image'' (Image step) pre vars)
      (orElse (validateTaskVariable ''workingDir'' (WorkingDir step) pre vars)
      (orElse (firstError (\<lambda>(i, cmd).
                 validateTaskVariable (''command['' @ itoa i @ '']'') cmd pre vars)
               (enumerate 0 (Command step)))
      (orElse (firstError (\<lambda>(i, arg).
                 validateTaskVariable (''arg['' @ itoa i @ '']'') arg pre vars)
               (enumerate 0 (Args step)))
      (orElse (firstError (\<lambda>env.
                 validateTaskVariable (''env['' @ envName env @ '']'') (envValue env) pre vars)
               (Env step))
              (firstError (\<lambda>(i, v).
                 orElse (validateTaskVariable
                           (''volumeMount['' @ itoa i @ ''].Name'') (vmName v) pre vars)
                (orElse (validateTaskVariable
                           (''volumeMount['' @ itoa i @ ''].MountPath'') (vmMountPath v) pre vars)
                        (validateTaskVariable
                           (''volumeMount['' @ itoa i @ ''].SubPath'') (vmSubPath v) pre vars)))
               (enumerate 0 (VolumeMounts step))))))))) steps"

subsection \<open>The namespaces\<close>

text \<open>
  One loop over a list of parameter declarations: every name goes into the first set,
  the names of the array parameters also into the second.
\<close>

definition addParameterNames ::
  "ParamSpec list \<Rightarrow> string set \<times> string set \<Rightarrow> string set \<times> string set" where
  "addParameterNames ps acc =
     fold (\<lambda>p (parameterNames, arrayParameterNames).
             (insert (psName p) parameterNames,
              if psType p = ParamTypeArray then insert (psName p) arrayParameterNames
              else arrayParameterNames)) ps acc"

definition validateInputParameterVariables ::
  "Step list \<Rightarrow> Inputs option \<Rightarrow> ParamSpec list \<Rightarrow> FieldError option" where
  "validateInputParameterVariables steps inputs params =
     (let acc = addParameterNames params ({}, {});
          acc' = (case inputs of None \<Rightarrow> acc | Some i \<Rightarrow> addParameterNames (inParams i) acc)
      in orElse (validateVariables steps ''params'' (fst acc'))
                (validateArrayUsage steps ''params'' (snd acc')))"

definition addResourceNames :: "TaskResource list \<Rightarrow> string set \<Rightarrow> string set" where
  "addResourceNames rs resourceNames = fold (\<lambda>r names. insert (trName r) names) rs resourceNames"

definition validateResourceVariables ::
  "Step list \<Rightarrow> Inputs option \<Rightarrow> Outputs option \<Rightarrow> TaskResources option \<Rightarrow> FieldError option" where
  "validateResourceVariables steps inputs outputs resources =
     (let n0 = (case resources of
                  None \<Rightarrow> {}
                | Some r \<Rightarrow> addResourceNames (resOutputs r) (addResourceNames (resInputs r) {}));
          n1 = (case inputs of None \<Rightarrow> n0 | Some i \<Rightarrow> addResourceNames (inResources i) n0);
          n2 = (case outputs of None \<Rightarrow> n1 | Some out \<Rightarrow> addResourceNames (outResources out) n1)
      in validateVariables steps ''resources'' n2)"

section \<open>The validation of a task specification\<close>

text \<open>
  The collaborators of \<^verbatim>\<open>TaskSpec.Validate\<close> that are declared outside the sources
  are parameters of the model: the default mount path of a workspace, the merge of the
  step template into the steps (which may fail with an error text), the validation of
  the new-style resources, parameter types, parameter variables and resource
  variables, the DNS label test of the Kubernetes library (which returns the list of
  its complaints), \<^verbatim>\<open>strings.ToLower\<close>, and the list of the allowed resource types.
\<close>

record externals =
  GetMountPath :: "WorkspaceDeclaration \<Rightarrow> string"
  MergeStepsWithStepTemplate :: "Container option \<Rightarrow> Step list \<Rightarrow> string + Step list"
  ResourcesValidate :: "TaskResources option \<Rightarrow> FieldError option"
  ValidateParameterTypes :: "ParamSpec list \<Rightarrow> FieldError option"
  ValidateParameterVariables :: "Step list \<Rightarrow> ParamSpec list \<Rightarrow> FieldError option"
  ValidateResourcesVariables :: "Step list \<Rightarrow> TaskResources option \<Rightarrow> FieldError option"
  IsDNS1123Label :: "string \<Rightarrow> string list"
  ToLower :: "string \<Rightarrow> string"
  AllResourceTypes :: "PipelineResourceType list"

text \<open>The loop of \<^verbatim>\<open>checkForDuplicates\<close> with the set of the lower-cased names seen.\<close>

fun checkForDuplicatesFrom ::
  "(string \<Rightarrow> string) \<Rightarrow> string set \<Rightarrow> TaskResource list \<Rightarrow> string \<Rightarrow> FieldError option" where
  "checkForDuplicatesFrom toLower encountered [] path = None"
| "checkForDuplicatesFrom toLower encountered (r # rs) path =
     (if toLower (trName r) \<in> encountered then Some (ErrMultipleOneOf [path])
      else checkForDuplicatesFrom toLower (insert (toLower (trName r)) encountered) rs path)"

definition checkForDuplicates ::
  "(string \<Rightarrow> string) \<Rightarrow> TaskResource list \<Rightarrow> string \<Rightarrow> FieldError option" where
  "checkForDuplicates toLower resources path = checkForDuplicatesFrom toLower {} resources path"

definition validateResourceType ::
  "PipelineResourceType list \<Rightarrow> TaskResource \<Rightarrow> string \<Rightarrow> FieldError option" where
  "validateResourceType allowedTypes r path =
     (if list_ex (\<lambda>allowed. trType r = allowed) allowedTypes then None
      else Some (ErrInvalidValue (trType r) path))"

text \<open>
  \<^verbatim>\<open>equality.Semantic.DeepEqual(ts, &TaskSpec{})\<close>: every collection is empty (a nil
  and an empty slice are the same) and every pointer is nil.
\<close>

definition emptyTaskSpec :: TaskSpec where
  "emptyTaskSpec =
     \<lparr>Resources = None, Params = [], Steps = [], Volumes = [], StepTemplate = None,
      Workspaces = [], Inputs = None, Outputs = None\<rparr>"

text \<open>
  The two blocks of \<^verbatim>\<open>TaskSpec.Validate\<close> on the legacy declarations that coexist
  with the new-style ones: first \<^verbatim>\<open>ts.Inputs\<close>, then \<^verbatim>\<open>ts.Outputs\<close>.
\<close>

definition validateExclusiveInputs :: "TaskSpec \<Rightarrow> FieldError option" where
  "validateExclusiveInputs ts =
     (case Inputs ts of
        None \<Rightarrow> None
      | Some i \<Rightarrow>
          if length (inParams i) > 0 \<and> length (Params ts) > 0
          then Some (ErrMultipleOneOf [''inputs.params'', ''params''])
          else
            (case Resources ts of
               None \<Rightarrow> None
             | Some r \<Rightarrow>
                 if length (resInputs r) > 0 \<and> length (inResources i) > 0
                 then Some (ErrMultipleOneOf [''inputs.resources'', ''resources.inputs''])
                 else None))"

definition validateExclusiveOutputs :: "TaskSpec \<Rightarrow> FieldError option" where
  "validateExclusiveOutputs ts =
     (case Outputs ts of
        None \<Rightarrow> None
      | Some out \<Rightarrow>
          (case Resources ts of
             None \<Rightarrow> None
           | Some r \<Rightarrow>
               if length (resOutputs r) > 0 \<and> length (outResources out) > 0
               then Some (ErrMultipleOneOf [''outputs.resources'', ''resources.outputs''])
               else None))"

text \<open>The deprecated blocks on the legacy inputs and outputs.\<close>

definition validateLegacyInputs :: "externals \<Rightarrow> TaskSpec \<Rightarrow> FieldError option" where
  "validateLegacyInputs ext ts =
     (case Inputs ts of
        None \<Rightarrow> None
      | Some i \<Rightarrow>
          orElse (firstError (\<lambda>resource.
                    validateResourceType (AllResourceTypes ext) resource
                      (''taskspec.Inputs.Resources.'' @ trName resource @ ''.Type''))
                  (inResources i))
         (orElse (checkForDuplicates (ToLower ext) (inResources i) ''taskspec.Inputs.Resources.Name'')
                 (validateInputParameterTypes i)))"

definition validateLegacyOutputs :: "externals \<Rightarrow> TaskSpec \<Rightarrow> FieldError option" where
  "validateLegacyOutputs ext ts =
     (case Outputs ts of
        None \<Rightarrow> None
      | Some out \<Rightarrow>
          orElse (firstError (\<lambda>resource.
                    validateResourceType (AllResourceTypes ext) resource
                      (''taskspec.Outputs.Resources.'' @ trName resource @ ''.Type''))
                  (outResources out))
                 (checkForDuplicates (ToLower ext) (outResources out)
                    ''taskspec.Outputs.Resources.Name''))"

text \<open>The loop on the step names.\<close>

definition validateStepNames :: "externals \<Rightarrow> Step list \<Rightarrow> FieldError option" where
  "validateStepNames ext steps =
     firstError (\<lambda>step.
       if Name step \<noteq> '''' \<and> length (IsDNS1123Label ext (Name step)) > 0
       then Some \<lparr>Message = InvalidStepName (Name step), Paths = [''taskspec.steps.name''],
                  Details = ''Task step name must be a valid DNS Label, For more info refer to https://kubernetes.io/docs/concepts/overview/working-with-objects/names/#names''\<rparr>
       else None) steps"

text \<open>
  What \<^verbatim>\<open>TaskSpec.Validate\<close> does once the merged steps have passed
  \<^verbatim>\<open>validateSteps\<close>.
\<close>

definition validateDeclarations :: "externals \<Rightarrow> TaskSpec \<Rightarrow> FieldError option" where
  "validateDeclarations ext ts =
     orElse (validateExclusiveInputs ts)
    (orElse (validateExclusiveOutputs ts)
    (orElse (ResourcesValidate ext (Resources ts))
    (orElse (ValidateParameterTypes ext (Params ts))
    (orElse (validateLegacyInputs ext ts)
    (orElse (validateLegacyOutputs ext ts)
    (orElse (validateStepNames ext (Steps ts))
    (orElse (ValidateParameterVariables ext (Steps ts) (Params ts))
    (orElse (validateInputParameterVariables (Steps ts) (Inputs ts) (Params ts))
    (orElse (ValidateResourcesVariables ext (Steps ts) (Resources ts))
            (validateResourceVariables (Steps ts) (Inputs ts) (Outputs ts) (Resources ts)))))))))))"

definition Validate :: "externals \<Rightarrow> TaskSpec \<Rightarrow> FieldError option" where
  "Validate ext ts =
     (if ts = emptyTaskSpec then Some (ErrMissingField [CurrentField])
      else if length (Steps ts) = 0 then Some (ErrMissingField [''steps''])
      else
        orElse (ViaField ''volumes'' (ValidateVolumes (Volumes ts)))
       (orElse (validateDeclaredWorkspaces (GetMountPath ext) (Workspaces ts) (Steps ts)
                  (StepTemplate ts))
          (case MergeStepsWithStepTemplate ext (StepTemplate ts) (Steps ts) of
             Inl err \<Rightarrow>
               Some \<lparr>Message = MergeError err, Paths = [''stepTemplate''], Details = ''''\<rparr>
           | Inr mergedSteps \<Rightarrow>
               orElse (ViaField ''steps'' (validateSteps mergedSteps))
                      (validateDeclarations ext ts))))"

section \<open>Notions used in the statements\<close>

text \<open>The non-empty names of a list of steps.\<close>

definition stepNames :: "Step list \<Rightarrow> string set" where
  "stepNames steps = {n \<in> Name ` set steps. n \<noteq> ''''}"

text \<open>
  The text of the placeholder of scope \<open>sc\<close> for the variable \<open>p\<close>, and the names
  that the scanner accepts.
\<close>

definition placeholder :: "string \<Rightarrow> string \<Rightarrow> string" where
  "placeholder sc p = ''$('' @ sc @ ''.'' @ p @ '')''"

definition validName :: "string \<Rightarrow> bool" where
  "validName p = (p \<noteq> [] \<and> list_all isNameChar p)"

text \<open>The names that a field value references in the scopes of the parameters.\<close>

definition referenced :: "string \<Rightarrow> string set" where
  "referenced v = mName ` set (extractVariables (scopePattern ''params'') v)"

text \<open>
  The parameter names that are declared: the union of the new-style list and of the
  legacy list of the inputs.
\<close>

definition declaredParameters :: "ParamSpec list \<Rightarrow> Inputs option \<Rightarrow> string set" where
  "declaredParameters params inputs =
     psName ` set params \<union> (case inputs of None \<Rightarrow> {} | Some i \<Rightarrow> psName ` set (inParams i))"

text \<open>The names of the declared parameters of type array, in either list.\<close>

definition declaredArrayParameters :: "ParamSpec list \<Rightarrow> Inputs option \<Rightarrow> string set" where
  "declaredArrayParameters params inputs =
     psName ` {p \<in> set params. psType p = ParamTypeArray}
     \<union> (case inputs of
          None \<Rightarrow> {}
        | Some i \<Rightarrow> psName ` {p \<in> set (inParams i). psType p = ParamTypeArray})"

text \<open>
  The fields of a step that the variable checks visit, in the order of the visit:
  whether the field is a command or argument token, the name of the field as it appears
  in the path of an error, and the value of the field.
\<close>

definition stepFields :: "Step \<Rightarrow> (bool \<times> string \<times> string) list" where
  "stepFields step =
     [(False, ''name'', Name step),
      (False, ''image'', Image step),
      (False, ''workingDir'', WorkingDir step)]
     @ map (\<lambda>(i, cmd). (True, ''command['' @ itoa i @ '']'', cmd)) (enumerate 0 (Command step))
     @ map (\<lambda>(i, arg). (True, ''arg['' @ itoa i @ '']'', arg)) (enumerate 0 (Args step))
     @ map (\<lambda>env. (False, ''env['' @ envName env @ '']'', envValue env)) (Env step)
     @ concat (map (\<lambda>(i, v).
         [(False, ''volumeMount['' @ itoa i @ ''].Name'', vmName v),
          (False, ''volumeMount['' @ itoa i @ ''].MountPath'', vmMountPath v),
          (False, ''volumeMount['' @ itoa i @ ''].SubPath'', vmSubPath v)])
         (enumerate 0 (VolumeMounts step)))"

text \<open>
  Concrete inputs: a step with a name and an image and nothing else, and collaborators
  that accept everything (no step template is merged, a workspace without a mount path
  is mounted under \<^verbatim>\<open>/workspace/\<close>).
\<close>

definition plainStep :: "string \<Rightarrow> string \<Rightarrow> Step" where
  "plainStep n img =
     \<lparr>Name = n, Image = img, Command = [], Args = [], WorkingDir = '''', Env = [],
      VolumeMounts = [], Script = ''''\<rparr>"

definition acceptingExternals :: externals where
  "acceptingExternals =
     \<lparr>GetMountPath = (\<lambda>w. if wsMountPath w = '''' then ''/workspace/'' @ wsName w
                           else wsMountPath w),
      MergeStepsWithStepTemplate = (\<lambda>t steps. Inr steps),
      ResourcesValidate = (\<lambda>r. None),
      ValidateParameterTypes = (\<lambda>ps. None),
      ValidateParameterVariables = (\<lambda>steps ps. None),
      ValidateResourcesVariables = (\<lambda>steps r. None),
      IsDNS1123Label = (\<lambda>n. []),
      ToLower = (\<lambda>n. n),
      AllResourceTypes = []\<rparr>"

section \<open>Properties of the step checks\<close>

subsection \<open>The loop over the steps\<close>

lemma stepNames_Nil [simp]: "stepNames [] = {}"
  by (simp add: stepNames_def)

lemma stepNames_Cons [simp]:
  "stepNames (s # ss) = (if Name s \<noteq> '''' then insert (Name s) (stepNames ss) else stepNames ss)"
  by (auto simp: stepNames_def)

lemma validateStepsFrom_append:
  "validateStepsFrom names idx (pre @ rest) =
     (case validateStepsFrom names idx pre of
        Some e \<Rightarrow> Some e
      | None \<Rightarrow> validateStepsFrom (names \<union> stepNames pre) (idx + length pre) rest)"
proof (induction pre arbitrary: names idx)
  case Nil
  then show ?case by simp
next
  case (Cons s pre)
  have eq: "insert (Name s) names \<union> stepNames pre = names \<union> insert (Name s) (stepNames pre)"
    by auto
  show ?case
    by (simp add: Cons.IH eq split: option.splits)
qed

lemma validateStepsFrom_None_names:
  "validateStepsFrom names idx steps = None \<Longrightarrow>
     distinct (filter (\<lambda>n. n \<noteq> '''') (map Name steps)) \<and> names \<inter> stepNames steps = {}"
proof (induction steps arbitrary: names idx)
  case Nil
  then show ?case by simp
next
  case (Cons s ss)
  from Cons.prems have ok: "Name s = '''' \<or> Name s \<notin> names"
    by (auto split: if_splits)
  from Cons.prems have rest:
    "validateStepsFrom (if Name s \<noteq> '''' then insert (Name s) names else names) (Suc idx) ss = None"
    by (auto split: if_splits option.splits)
  from Cons.IH [OF rest] ok show ?case
    by (auto simp: stepNames_def split: if_splits)
qed

text \<open>A failing run stops at one step: the steps before it pass, and the step itself
  fails against the names of the earlier steps.\<close>

lemma validateStepsFrom_Some_split:
  "validateStepsFrom names idx steps = Some e \<Longrightarrow>
     \<exists>pre s rest. steps = pre @ s # rest \<and> validateStepsFrom names idx pre = None \<and>
       validateStepsFrom (names \<union> stepNames pre) (idx + length pre) [s] = Some e"
proof (induction steps arbitrary: names idx)
  case Nil
  then show ?case by simp
next
  case (Cons s ss)
  show ?case
  proof (cases "validateStepsFrom names idx [s]")
    case (Some e')
    with Cons.prems have "e' = e"
      using validateStepsFrom_append [of names idx "[s]" ss] by simp
    with Some have "s # ss = [] @ s # ss \<and> validateStepsFrom names idx [] = None \<and>
        validateStepsFrom (names \<union> stepNames []) (idx + length ([]::Step list)) [s] = Some e"
      by simp
    then show ?thesis by blast
  next
    case None
    with Cons.prems have tl: "validateStepsFrom (names \<union> stepNames [s]) (Suc idx) ss = Some e"
      using validateStepsFrom_append [of names idx "[s]" ss] by simp
    from Cons.IH [OF tl] obtain pre t rest where
      ss: "ss = pre @ t # rest" and
      pre: "validateStepsFrom (names \<union> stepNames [s]) (Suc idx) pre = None" and
      t: "validateStepsFrom (names \<union> stepNames [s] \<union> stepNames pre) (Suc idx + length pre) [t] = Some e"
      by blast
    have names: "names \<union> stepNames [s] \<union> stepNames pre = names \<union> stepNames (s # pre)"
      by auto
    have idx: "idx + length (s # pre) = Suc idx + length pre"
      by simp
    have "validateStepsFrom names idx (s # pre) = None"
      using validateStepsFrom_append [of names idx "[s]" pre] None pre by simp
    moreover have "validateStepsFrom (names \<union> stepNames (s # pre)) (idx + length (s # pre)) [t] = Some e"
      unfolding names [symmetric] idx using t .
    moreover have "s # ss = (s # pre) @ t # rest"
      using ss by simp
    ultimately show ?thesis by blast
  qed
qed

lemma validateVolumeMounts_append:
  "validateVolumeMounts idx (pre @ rest) =
     (case validateVolumeMounts idx pre of Some e \<Rightarrow> Some e | None \<Rightarrow> validateVolumeMounts idx rest)"
  by (induction pre) auto

lemma validateVolumeMounts_path_errorD:
  "validateVolumeMounts idx vms = Some e \<Longrightarrow> Message e = MountUnderTekton i nm mp \<Longrightarrow>
     i = idx \<and> (\<exists>vm\<in>set vms. vmName vm = nm \<and> vmMountPath vm = mp \<and>
        HasPrefix mp ''/tekton/'' \<and> \<not> HasPrefix mp ''/tekton/home'')"
  by (induction vms) (auto split: if_splits)

lemma validateVolumeMounts_Some_kind:
  "validateVolumeMounts idx vms = Some e \<Longrightarrow>
     (\<exists>nm mp. Message e = MountUnderTekton idx nm mp) \<or> (\<exists>nm. Message e = MountNameReserved idx nm)"
  by (induction vms) (auto split: if_splits)

lemma validateVolumeMounts_reserved_path:
  "vm \<in> set vms \<Longrightarrow> HasPrefix (vmMountPath vm) ''/tekton/'' \<Longrightarrow>
     \<not> HasPrefix (vmMountPath vm) ''/tekton/home'' \<Longrightarrow> validateVolumeMounts idx vms \<noteq> None"
  by (induction vms) auto

lemma validateStep_script_errorD:
  "validateStepsFrom names idx [s] = Some e \<Longrightarrow> Message e = ScriptWithCommand i \<Longrightarrow>
     i = idx \<and> Script s \<noteq> '''' \<and> Command s \<noteq> []"
  using validateVolumeMounts_Some_kind [of idx "VolumeMounts s" e]
  by (auto simp: ErrMissingField_def ErrInvalidValue_def split: if_splits option.splits)

lemma validateStep_name_errorD:
  "validateStepsFrom names idx [s] = Some e \<Longrightarrow> Message e = InvalidValue n \<Longrightarrow>
     n = Name s \<and> n \<noteq> '''' \<and> n \<in> names \<and> e = ErrInvalidValue n ''name''"
  using validateVolumeMounts_Some_kind [of idx "VolumeMounts s" e]
  by (auto simp: ErrMissingField_def ErrInvalidValue_def split: if_splits option.splits)

lemma validateStep_path_errorD:
  "validateStepsFrom names idx [s] = Some e \<Longrightarrow> Message e = MountUnderTekton i nm mp \<Longrightarrow>
     i = idx \<and> (\<exists>vm\<in>set (VolumeMounts s). vmName vm = nm \<and> vmMountPath vm = mp \<and>
        HasPrefix mp ''/tekton/'' \<and> \<not> HasPrefix mp ''/tekton/home'')"
  using validateVolumeMounts_path_errorD [of idx "VolumeMounts s" e i nm mp]
  by (auto simp: ErrMissingField_def ErrInvalidValue_def split: if_splits option.splits)

text \<open>A step that fails on its own makes every list that contains it fail.\<close>

lemma validateStepsFrom_member_fails:
  "s \<in> set steps \<Longrightarrow> (\<And>names idx. validateStepsFrom names idx [s] \<noteq> None) \<Longrightarrow>
     validateStepsFrom names idx steps \<noteq> None"
proof -
  assume mem: "s \<in> set steps" and bad: "\<And>names idx. validateStepsFrom names idx [s] \<noteq> None"
  from mem obtain pre rest where steps: "steps = pre @ s # rest"
    by (auto simp: in_set_conv_decomp)
  have one: "validateStepsFrom (names \<union> stepNames pre) (idx + length pre) ([s] @ rest) \<noteq> None"
    using bad [of "names \<union> stepNames pre" "idx + length pre"]
    by (subst validateStepsFrom_append) (auto split: option.splits)
  show ?thesis
    unfolding steps using one
    by (subst validateStepsFrom_append) (auto split: option.splits)
qed

lemma validateSteps_script_fails:
  assumes "s \<in> set steps" "Script s \<noteq> ''''" "Command s \<noteq> []"
  shows "validateSteps steps \<noteq> None"
  unfolding validateSteps_def
  using assms(1)
proof (rule validateStepsFrom_member_fails)
  fix names idx
  show "validateStepsFrom names idx [s] \<noteq> None"
    using assms(2,3) by simp
qed

lemma validateSteps_reserved_path_fails:
  assumes "s \<in> set steps" "vm \<in> set (VolumeMounts s)"
    "HasPrefix (vmMountPath vm) ''/tekton/''" "\<not> HasPrefix (vmMountPath vm) ''/tekton/home''"
  shows "validateSteps steps \<noteq> None"
  unfolding validateSteps_def
  using assms(1)
proof (rule validateStepsFrom_member_fails)
  fix names idx
  show "validateStepsFrom names idx [s] \<noteq> None"
    using validateVolumeMounts_reserved_path [OF assms(2,3,4), of idx]
    by (auto split: option.splits)
qed

lemma validateSteps_duplicate_fails:
  assumes "i < j" "j < length steps" "Name (steps ! i) = Name (steps ! j)" "Name (steps ! i) \<noteq> ''''"
  shows "validateSteps steps \<noteq> None"
proof
  assume "validateSteps steps = None"
  then have d: "distinct (filter (\<lambda>n. n \<noteq> '''') (map Name steps))"
    using validateStepsFrom_None_names [of "{}" 0 steps] by (simp add: validateSteps_def)
  have split: "steps = take j steps @ steps ! j # drop (Suc j) steps"
    using assms(2) by (rule id_take_nth_drop)
  have "steps ! i \<in> set (take j steps)"
    using assms(1,2) by (auto simp: in_set_conv_nth intro!: exI [of _ i])
  then have "Name (steps ! i) \<in> Name ` set (take j steps)"
    by (rule imageI)
  then have mem: "Name (steps ! j) \<in> set (filter (\<lambda>n. n \<noteq> '''') (map Name (take j steps)))"
    using assms(3,4) by simp
  have "\<not> distinct (filter (\<lambda>n. n \<noteq> '''') (map Name (take j steps @ steps ! j # drop (Suc j) steps)))"
    using mem assms(3,4) by simp
  then have "\<not> distinct (filter (\<lambda>n. n \<noteq> '''') (map Name steps))"
    using split by simp
  with d show False by simp
qed

lemma validateSteps_path_errorD:
  assumes "validateSteps steps = Some e" "Message e = MountUnderTekton i nm mp"
  shows "i < length steps \<and>
      (\<exists>vm\<in>set (VolumeMounts (steps ! i)). vmName vm = nm \<and> vmMountPath vm = mp \<and>
         HasPrefix mp ''/tekton/'' \<and> \<not> HasPrefix mp ''/tekton/home'')"
proof -
  from assms(1) obtain pre s rest where
    steps: "steps = pre @ s # rest" and
    s: "validateStepsFrom ({} \<union> stepNames pre) (0 + length pre) [s] = Some e"
    using validateStepsFrom_Some_split [of "{}" 0 steps e] by (auto simp: validateSteps_def)
  from validateStep_path_errorD [OF s assms(2)]
  have "i = length pre \<and> (\<exists>vm\<in>set (VolumeMounts s). vmName vm = nm \<and> vmMountPath vm = mp \<and>
      HasPrefix mp ''/tekton/'' \<and> \<not> HasPrefix mp ''/tekton/home'')"
    by simp
  with steps show ?thesis by simp
qed

section \<open>Properties of the declaration checks\<close>

subsection \<open>Sequencing\<close>

lemma orElse_simps [simp]:
  "orElse None b = b"
  "orElse (Some e) b = Some e"
  by (simp_all add: orElse_def)

lemma firstError_append:
  "firstError f (xs @ ys) = orElse (firstError f xs) (firstError f ys)"
  by (induction xs) (auto split: option.splits)

lemma firstError_map: "firstError f (map g xs) = firstError (\<lambda>x. f (g x)) xs"
  by (induction xs) (auto split: option.splits)

lemma firstError_concat: "firstError f (concat xss) = firstError (firstError f) xss"
  by (induction xss) (auto simp: firstError_append split: option.splits)

lemma firstError_eq_None_iff: "firstError f xs = None \<longleftrightarrow> (\<forall>x\<in>set xs. f x = None)"
  by (induction xs) (auto split: option.splits)

text \<open>The error of a failing loop is the error of its first failing element.\<close>

lemma firstError_Some_split:
  "firstError f xs = Some e \<Longrightarrow>
     \<exists>pre x rest. xs = pre @ x # rest \<and> (\<forall>y\<in>set pre. f y = None) \<and> f x = Some e"
proof (induction xs)
  case Nil
  then show ?case by simp
next
  case (Cons x xs)
  show ?case
  proof (cases "f x")
    case None
    with Cons.prems have "firstError f xs = Some e" by simp
    from Cons.IH [OF this] obtain pre y rest where
      "xs = pre @ y # rest" "\<forall>z\<in>set pre. f z = None" "f y = Some e"
      by blast
    with None have "x # xs = (x # pre) @ y # rest \<and> (\<forall>z\<in>set (x # pre). f z = None) \<and> f y = Some e"
      by simp
    then show ?thesis by blast
  next
    case (Some e')
    with Cons.prems have "x # xs = [] @ x # xs \<and> (\<forall>z\<in>set []. f z = None) \<and> f x = Some e"
      by simp
    then show ?thesis by blast
  qed
qed

subsection \<open>Parameter types\<close>

lemma validType_fold:
  "fold (\<lambda>allowedType valid. if t = allowedType then True else valid) ts b \<longleftrightarrow> t \<in> set ts \<or> b"
  by (induction ts arbitrary: b) auto

lemma validateParamTypesFrom_append:
  "validateParamTypesFrom (pre @ rest) =
     (case validateParamTypesFrom pre of Some e \<Rightarrow> Some e | None \<Rightarrow> validateParamTypesFrom rest)"
  by (induction pre) (auto simp: Let_def split: option.splits)

lemma validateParamTypesFrom_None_iff:
  "validateParamTypesFrom ps = None \<longleftrightarrow>
     (\<forall>p\<in>set ps. psType p \<in> set AllParamTypes \<and> (\<forall>d. psDefault p = Some d \<longrightarrow> aosType d = psType p))"
  by (induction ps) (auto simp: Let_def validType_fold split: option.splits)

subsection \<open>Workspaces\<close>

lemma validateWorkspacesFrom_None:
  "validateWorkspacesFrom gmp wsNames mountPaths ws = None \<Longrightarrow>
     distinct (map (\<lambda>w. Clean (gmp w)) ws)"
proof (induction ws arbitrary: wsNames mountPaths)
  case Nil
  then show ?case by simp
next
  case (Cons w ws)
  from Cons.prems have rest:
    "validateWorkspacesFrom gmp (insert (wsName w) wsNames) (insert (Clean (gmp w)) mountPaths) ws = None"
    by (auto simp: Let_def split: if_splits)
  have "Clean (gmp w) \<notin> (\<lambda>w. Clean (gmp w)) ` set ws"
  proof
    assume "Clean (gmp w) \<in> (\<lambda>w. Clean (gmp w)) ` set ws"
    then obtain v where v: "v \<in> set ws" "Clean (gmp v) = Clean (gmp w)" by auto
    then obtain pre post where ws: "ws = pre @ v # post"
      by (auto simp: in_set_conv_decomp)
    have inv: "validateWorkspacesFrom gmp N M (a @ v # b) \<noteq> None" if "Clean (gmp w) \<in> M" for N M a b
      using that
    proof (induction a arbitrary: N M)
      case Nil
      with v(2) show ?case by (simp add: Let_def)
    next
      case (Cons x a)
      then show ?case by (simp add: Let_def)
    qed
    from inv [of "insert (Clean (gmp w)) mountPaths" "insert (wsName w) wsNames" pre post] rest ws
    show False by simp
  qed
  with Cons.IH [OF rest] show ?case by simp
qed

lemma validateWorkspacesFrom_distinct_names:
  "validateWorkspacesFrom gmp wsNames mountPaths ws = Some e \<Longrightarrow> distinct (map wsName ws) \<Longrightarrow>
     wsName ` set ws \<inter> wsNames = {} \<Longrightarrow>
     \<exists>p. e = \<lparr>Message = WorkspaceMountPathNotUnique p, Paths = [''workspaces.mountpath''],
                Details = ''''\<rparr>"
proof (induction ws arbitrary: wsNames mountPaths)
  case Nil
  then show ?case by simp
next
  case (Cons w ws)
  from Cons.prems(3) have fresh: "wsName w \<notin> wsNames" by auto
  show ?case
  proof (cases "Clean (gmp w) \<in> mountPaths")
    case True
    with fresh Cons.prems(1) show ?thesis by (auto simp: Let_def)
  next
    case False
    with fresh Cons.prems(1) have rest:
      "validateWorkspacesFrom gmp (insert (wsName w) wsNames) (insert (Clean (gmp w)) mountPaths) ws = Some e"
      by (simp add: Let_def)
    from Cons.prems(2,3) have "distinct (map wsName ws)"
      "wsName ` set ws \<inter> insert (wsName w) wsNames = {}"
      by auto
    from Cons.IH [OF rest this] show ?thesis .
  qed
qed

section \<open>Properties of the reference scanner\<close>

lemma not_isNameChar_special [simp]:
  "\<not> isNameChar (CHR '')'')" "\<not> isNameChar (CHR ''$'')"
  by (simp_all add: isNameChar_def)

lemma validName_no_dollar: "validName p \<Longrightarrow> CHR ''$'' \<notin> set p"
  by (auto simp: validName_def list_all_iff)

text \<open>A match at the beginning of a string is a placeholder with a valid name.\<close>

lemma matchScope_SomeD:
  assumes "matchScope sc s = Some (nm, n)"
  shows "validName nm \<and> n = length (placeholder sc nm) \<and> prefix (placeholder sc nm) s"
proof -
  let ?opening = "''$('' @ sc @ ''.''"
  from assms have pre: "prefix ?opening s"
    by (auto simp: matchScope_def Let_def split: if_splits)
  then obtain rest where s: "s = ?opening @ rest"
    by (auto elim: prefixE)
  from assms s have nm: "nm = takeWhile isNameChar rest" "nm \<noteq> []"
    and close: "prefix '')'' (drop (length nm) rest)"
    and n: "n = length ?opening + length nm + 1"
    by (auto simp: matchScope_def Let_def split: if_splits)
  have "rest = nm @ dropWhile isNameChar rest"
    using nm(1) by simp
  then have "drop (length nm) rest = dropWhile isNameChar rest"
    by (metis append_eq_conv_conj)
  with close obtain r where "dropWhile isNameChar rest = '')'' @ r"
    by (auto elim: prefixE)
  with \<open>rest = nm @ dropWhile isNameChar rest\<close> have rest: "rest = nm @ '')'' @ r"
    by simp
  have valid: "validName nm"
    using nm by (auto simp: validName_def list_all_iff dest: set_takeWhileD)
  have "s = placeholder sc nm @ r"
    using s rest by (simp add: placeholder_def)
  then have "prefix (placeholder sc nm) s"
    by simp
  with valid n show ?thesis
    by (simp add: placeholder_def)
qed

lemma matchScope_placeholder:
  assumes "validName p"
  shows "matchScope sc (placeholder sc p @ r) = Some (p, length (placeholder sc p))"
proof -
  from assms have all: "\<And>x. x \<in> set p \<Longrightarrow> isNameChar x" and ne: "p \<noteq> []"
    by (auto simp: validName_def list_all_iff)
  have tw: "takeWhile isNameChar (p @ CHR '')'' # r) = p"
    using all by simp
  have eq: "placeholder sc p @ r = (''$('' @ sc @ ''.'') @ (p @ CHR '')'' # r)"
    by (simp add: placeholder_def)
  show ?thesis
    unfolding eq matchScope_def Let_def
    using tw ne by (simp add: placeholder_def)
qed

lemma matchScope_dollar: "matchScope sc s = Some r \<Longrightarrow> \<exists>t. s = CHR ''$'' # t"
  by (auto simp: matchScope_def Let_def split: if_splits elim!: prefixE)

lemma matchAt_SomeD:
  "matchAt scs s = Some (nm, n) \<Longrightarrow>
     \<exists>sc\<in>set scs. validName nm \<and> n = length (placeholder sc nm) \<and> prefix (placeholder sc nm) s"
proof (induction scs)
  case Nil
  then show ?case by simp
next
  case (Cons sc scs)
  show ?case
  proof (cases "matchScope sc s")
    case None
    with Cons show ?thesis by auto
  next
    case (Some r)
    with Cons.prems have "matchScope sc s = Some (nm, n)" by simp
    from matchScope_SomeD [OF this] show ?thesis by auto
  qed
qed

lemma matchAt_dollar: "matchAt scs s = Some r \<Longrightarrow> \<exists>t. s = CHR ''$'' # t"
  by (induction scs) (auto split: option.splits dest: matchScope_dollar)

lemma matchScope_other_scope:
  "matchScope (''inputs.'' @ pre) (placeholder (''outputs.'' @ pre) p @ r) = None"
  by (simp add: matchScope_def placeholder_def)

lemma matchAt_placeholder:
  assumes "validName p" "sc \<in> set (scopePattern pre)"
  shows "matchAt (scopePattern pre) (placeholder sc p @ r) = Some (p, length (placeholder sc p))"
proof -
  from assms(2) consider "sc = ''inputs.'' @ pre" | "sc = ''outputs.'' @ pre"
    by (auto simp: scopePattern_def)
  then show ?thesis
  proof cases
    case 1
    then show ?thesis
      using matchScope_placeholder [OF assms(1), of sc r] by (simp add: scopePattern_def)
  next
    case 2
    then show ?thesis
      using matchScope_placeholder [OF assms(1), of sc r] matchScope_other_scope [of pre p r]
      by (simp add: scopePattern_def)
  qed
qed

text \<open>The matches of a scan are the matches at the positions of the string.\<close>

lemma scanFrom_no_dollar: "CHR ''$'' \<notin> set s \<Longrightarrow> scanFrom scs i s = []"
proof (induction s arbitrary: i)
  case Nil
  then show ?case by simp
next
  case (Cons c cs)
  have "matchAt scs (c # cs) = None"
  proof (cases "matchAt scs (c # cs)")
    case None
    then show ?thesis .
  next
    case (Some r)
    from matchAt_dollar [OF this] Cons.prems show ?thesis by simp
  qed
  with Cons show ?case by simp
qed

lemma scanFrom_append_found:
  "matchAt scs s = Some (nm, n) \<Longrightarrow>
     \<lparr>mName = nm, mStart = i + length l, mEnd = i + length l + n\<rparr> \<in> set (scanFrom scs i (l @ s))"
proof (induction l arbitrary: i)
  case Nil
  from matchAt_dollar [OF Nil] obtain t where "s = CHR ''$'' # t" by blast
  with Nil show ?case by simp
next
  case (Cons c l)
  from Cons.IH [OF Cons.prems, of "Suc i"] show ?case
    by (auto split: option.splits)
qed

lemma scanFrom_memberD:
  "m \<in> set (scanFrom scs i s) \<Longrightarrow>
     \<exists>k n. k < length s \<and> matchAt scs (drop k s) = Some (mName m, n) \<and>
        mStart m = i + k \<and> mEnd m = i + k + n"
proof (induction s arbitrary: i)
  case Nil
  then show ?case by simp
next
  case (Cons c cs)
  show ?case
  proof (cases "m \<in> set (scanFrom scs (Suc i) cs)")
    case True
    from Cons.IH [OF this] obtain k n where
      "k < length cs" "matchAt scs (drop k cs) = Some (mName m, n)"
      "mStart m = Suc i + k" "mEnd m = Suc i + k + n"
      by blast
    then have "Suc k < length (c # cs) \<and> matchAt scs (drop (Suc k) (c # cs)) = Some (mName m, n) \<and>
        mStart m = i + Suc k \<and> mEnd m = i + Suc k + n"
      by simp
    then show ?thesis by blast
  next
    case False
    with Cons.prems obtain nm n where
      "matchAt scs (c # cs) = Some (nm, n)" "m = \<lparr>mName = nm, mStart = i, mEnd = i + n\<rparr>"
      by (auto split: option.splits)
    then have "0 < length (c # cs) \<and> matchAt scs (drop 0 (c # cs)) = Some (mName m, n) \<and>
        mStart m = i + 0 \<and> mEnd m = i + 0 + n"
      by simp
    then show ?thesis by blast
  qed
qed

subsection \<open>Whole-field references\<close>

lemma wholeField_placeholder:
  assumes "m \<in> set (extractVariables scs v)" "isWholeField v m"
  shows "\<exists>sc\<in>set scs. validName (mName m) \<and> v = placeholder sc (mName m)"
proof -
  from scanFrom_memberD [OF assms(1) [unfolded extractVariables_def]] obtain k n where
    k: "k < length v" "matchAt scs (drop k v) = Some (mName m, n)"
      "mStart m = 0 + k" "mEnd m = 0 + k + n"
    by blast
  with assms(2) have "k = 0" "n = length v"
    by (simp_all add: isWholeField_def)
  with k(2) have "matchAt scs v = Some (mName m, length v)" by simp
  from matchAt_SomeD [OF this] obtain sc where
    sc: "sc \<in> set scs" "validName (mName m)" "length v = length (placeholder sc (mName m))"
      "prefix (placeholder sc (mName m)) v"
    by blast
  from sc(3,4) have "v = placeholder sc (mName m)"
    by (auto elim!: prefixE)
  with sc show ?thesis by blast
qed

lemma scopePattern_params_no_dollar:
  "sc \<in> set (scopePattern ''params'') \<Longrightarrow> CHR ''$'' \<notin> set sc"
  by (auto simp: scopePattern_def)

lemma extractVariables_placeholder:
  assumes "validName p" "sc \<in> set (scopePattern ''params'')"
  shows "extractVariables (scopePattern ''params'') (placeholder sc p) =
     [\<lparr>mName = p, mStart = 0, mEnd = length (placeholder sc p)\<rparr>]"
proof -
  let ?tail = "''('' @ sc @ ''.'' @ p @ '')''"
  have ph: "placeholder sc p = CHR ''$'' # ?tail"
    by (simp add: placeholder_def)
  have "CHR ''$'' \<notin> set ?tail"
    using validName_no_dollar [OF assms(1)] scopePattern_params_no_dollar [OF assms(2)]
    by simp
  then have tail: "scanFrom (scopePattern ''params'') (Suc 0) ?tail = []"
    by (rule scanFrom_no_dollar)
  have hd: "matchAt (scopePattern ''params'') (CHR ''$'' # ?tail) =
      Some (p, length (placeholder sc p))"
    using matchAt_placeholder [OF assms, of "[]"] by (simp add: ph)
  show ?thesis
    unfolding extractVariables_def ph scanFrom.simps hd using tail by (simp add: ph)
qed

lemma embedded_placeholder_found:
  assumes "validName p" "sc \<in> set (scopePattern ''params'')"
  shows "\<lparr>mName = p, mStart = length l, mEnd = length l + length (placeholder sc p)\<rparr>
     \<in> set (extractVariables (scopePattern ''params'') (l @ placeholder sc p @ r))"
  using scanFrom_append_found [OF matchAt_placeholder [OF assms, of r], of 0 l]
  by (simp add: extractVariables_def)

lemma embedded_placeholder_referenced:
  assumes "validName p" "sc \<in> set (scopePattern ''params'')"
  shows "p \<in> referenced (l @ placeholder sc p @ r)"
proof -
  have "mName \<lparr>mName = p, mStart = length l, mEnd = length l + length (placeholder sc p)\<rparr>
      \<in> referenced (l @ placeholder sc p @ r)"
    unfolding referenced_def using embedded_placeholder_found [OF assms] by (rule imageI)
  then show ?thesis by simp
qed

subsection \<open>The three checks of a field\<close>

lemma validateTaskVariable_eq:
  "validateTaskVariable name v ''params'' vars =
     (if referenced v \<subseteq> vars then None
      else Some \<lparr>Message = NonExistentVariable v ''step'' name,
                 Paths = [''taskspec.steps.'' @ name], Details = ''''\<rparr>)"
  by (auto simp: validateTaskVariable_def ValidateVariable_def referenced_def list_ex_iff)

lemma validateTaskNoArrayReferenced_eq:
  "validateTaskNoArrayReferenced name v ''params'' arrayNames =
     (if referenced v \<inter> arrayNames \<noteq> {} then
        Some \<lparr>Message = ProhibitedVariable v ''step'' name,
              Paths = [''taskspec.steps.'' @ name], Details = ''''\<rparr>
      else None)"
  by (auto simp: validateTaskNoArrayReferenced_def ValidateVariableProhibited_def referenced_def
      list_ex_iff)

lemma validateTaskArraysIsolated_no_reference:
  "referenced v \<inter> arrayNames = {} \<Longrightarrow> validateTaskArraysIsolated name v ''params'' arrayNames = None"
  by (auto simp: validateTaskArraysIsolated_def ValidateVariableIsolated_def referenced_def
      list_ex_iff)

lemma validateTaskArraysIsolated_eq:
  assumes "referenced v \<inter> arrayNames \<noteq> {}"
  shows "validateTaskArraysIsolated name v ''params'' arrayNames =
     (if \<exists>sc\<in>set (scopePattern ''params''). \<exists>p. validName p \<and> v = placeholder sc p then None
      else Some \<lparr>Message = NotIsolatedVariable v ''step'' name,
                 Paths = [''taskspec.steps.'' @ name], Details = ''''\<rparr>)"
proof (cases "\<exists>sc\<in>set (scopePattern ''params''). \<exists>p. validName p \<and> v = placeholder sc p")
  case True
  then obtain sc p where sc: "sc \<in> set (scopePattern ''params'')" "validName p" "v = placeholder sc p"
    by blast
  have "extractVariables (scopePattern ''params'') v =
      [\<lparr>mName = p, mStart = 0, mEnd = length v\<rparr>]"
    using extractVariables_placeholder [OF sc(2,1)] sc(3) by simp
  then have "validateTaskArraysIsolated name v ''params'' arrayNames = None"
    by (simp add: validateTaskArraysIsolated_def ValidateVariableIsolated_def isWholeField_def)
  with True show ?thesis by simp
next
  case False
  from assms obtain m where m: "m \<in> set (extractVariables (scopePattern ''params'') v)"
    "mName m \<in> arrayNames"
    by (auto simp: referenced_def)
  have "\<not> isWholeField v m"
    using wholeField_placeholder [OF m(1)] False by blast
  with m have "list_ex (\<lambda>m. mName m \<in> arrayNames \<and> \<not> isWholeField v m)
      (extractVariables (scopePattern ''params'') v)"
    by (auto simp: list_ex_iff)
  then have "validateTaskArraysIsolated name v ''params'' arrayNames =
      Some \<lparr>Message = NotIsolatedVariable v ''step'' name,
            Paths = [''taskspec.steps.'' @ name], Details = ''''\<rparr>"
    by (simp add: validateTaskArraysIsolated_def ValidateVariableIsolated_def)
  with False show ?thesis by simp
qed

section \<open>Properties of the walk over the fields\<close>

text \<open>Both walks visit the fields of \<^const>\<open>stepFields\<close> in order and stop at the first error.\<close>

lemma firstError_Cons_orElse: "firstError f (x # xs) = orElse (f x) (firstError f xs)"
  by (simp add: orElse_def)

lemma orElse_assoc: "orElse (orElse a b) c = orElse a (orElse b c)"
  by (cases a) simp_all

lemma orElse_None_right [simp]: "orElse a None = a"
  by (cases a) simp_all

lemma validateVariables_fields:
  "validateVariables steps pre vars =
     firstError (\<lambda>(tok, f, v). validateTaskVariable f v pre vars) (concat (map stepFields steps))"
  unfolding validateVariables_def stepFields_def
  by (simp add: firstError_concat firstError_map firstError_append firstError_Cons_orElse
      orElse_assoc split_def del: firstError.simps(2))

lemma validateArrayUsage_fields:
  "validateArrayUsage steps pre vars =
     firstError (\<lambda>(tok, f, v).
        if tok then validateTaskArraysIsolated f v pre vars
        else validateTaskNoArrayReferenced f v pre vars) (concat (map stepFields steps))"
  unfolding validateArrayUsage_def stepFields_def
  by (simp add: firstError_concat firstError_map firstError_append firstError_Cons_orElse
      orElse_assoc split_def del: firstError.simps(2))

lemma set_stepFields:
  "set (stepFields s) =
     {(False, ''name'', Name s), (False, ''image'', Image s), (False, ''workingDir'', WorkingDir s)}
     \<union> (\<lambda>(i, cmd). (True, ''command['' @ itoa i @ '']'', cmd)) ` set (enumerate 0 (Command s))
     \<union> (\<lambda>(i, arg). (True, ''arg['' @ itoa i @ '']'', arg)) ` set (enumerate 0 (Args s))
     \<union> (\<lambda>env. (False, ''env['' @ envName env @ '']'', envValue env)) ` set (Env s)
     \<union> (\<Union>(i, v)\<in>set (enumerate 0 (VolumeMounts s)).
          {(False, ''volumeMount['' @ itoa i @ ''].Name'', vmName v),
           (False, ''volumeMount['' @ itoa i @ ''].MountPath'', vmMountPath v),
           (False, ''volumeMount['' @ itoa i @ ''].SubPath'', vmSubPath v)})"
  unfolding stepFields_def set_append set_map set_concat
  by (simp add: split_def Un_assoc insert_commute)

lemma in_enumerate:
  assumes "x \<in> set xs"
  shows "\<exists>i. (i, x) \<in> set (enumerate 0 xs)"
proof -
  from assms obtain i where "i < length xs" "xs ! i = x"
    by (auto simp: in_set_conv_nth)
  then have "(i, x) \<in> set (enumerate 0 xs)"
    by (simp add: in_set_enumerate_eq)
  then show ?thesis ..
qed

lemma stepFields_basic:
  "(False, ''name'', Name s) \<in> set (stepFields s)"
  "(False, ''image'', Image s) \<in> set (stepFields s)"
  "(False, ''workingDir'', WorkingDir s) \<in> set (stepFields s)"
  unfolding set_stepFields by simp_all

lemma stepFields_env:
  "e \<in> set (Env s) \<Longrightarrow> (False, ''env['' @ envName e @ '']'', envValue e) \<in> set (stepFields s)"
  unfolding set_stepFields by simp

lemma stepFields_command:
  assumes "(i, t) \<in> set (enumerate 0 (Command s))"
  shows "(True, ''command['' @ itoa i @ '']'', t) \<in> set (stepFields s)"
proof -
  have "(True, ''command['' @ itoa i @ '']'', t) \<in>
      (\<lambda>(i, cmd). (True, ''command['' @ itoa i @ '']'', cmd)) ` set (enumerate 0 (Command s))"
    using assms by (intro image_eqI [where x = "(i, t)"]) simp_all
  then show ?thesis
    unfolding set_stepFields by simp
qed

lemma stepFields_arg:
  assumes "(i, t) \<in> set (enumerate 0 (Args s))"
  shows "(True, ''arg['' @ itoa i @ '']'', t) \<in> set (stepFields s)"
proof -
  have "(True, ''arg['' @ itoa i @ '']'', t) \<in>
      (\<lambda>(i, arg). (True, ''arg['' @ itoa i @ '']'', arg)) ` set (enumerate 0 (Args s))"
    using assms by (intro image_eqI [where x = "(i, t)"]) simp_all
  then show ?thesis
    unfolding set_stepFields by simp
qed

lemma stepFields_volumeMount:
  assumes "(i, m) \<in> set (enumerate 0 (VolumeMounts s))"
  shows "(False, ''volumeMount['' @ itoa i @ ''].Name'', vmName m) \<in> set (stepFields s)"
    and "(False, ''volumeMount['' @ itoa i @ ''].MountPath'', vmMountPath m) \<in> set (stepFields s)"
    and "(False, ''volumeMount['' @ itoa i @ ''].SubPath'', vmSubPath m) \<in> set (stepFields s)"
proof -
  let ?F = "\<lambda>(i, v). {(False, ''volumeMount['' @ itoa i @ ''].Name'', vmName v),
           (False, ''volumeMount['' @ itoa i @ ''].MountPath'', vmMountPath v),
           (False, ''volumeMount['' @ itoa i @ ''].SubPath'', vmSubPath v)}"
  have sub: "?F (i, m) \<subseteq> set (stepFields s)"
    unfolding set_stepFields using assms by (intro le_supI2 UN_upper)
  show "(False, ''volumeMount['' @ itoa i @ ''].Name'', vmName m) \<in> set (stepFields s)"
    by (rule subsetD [OF sub]) simp
  show "(False, ''volumeMount['' @ itoa i @ ''].MountPath'', vmMountPath m) \<in> set (stepFields s)"
    by (rule subsetD [OF sub]) simp
  show "(False, ''volumeMount['' @ itoa i @ ''].SubPath'', vmSubPath m) \<in> set (stepFields s)"
    by (rule subsetD [OF sub]) simp
qed

lemma token_in_stepFields:
  assumes "t \<in> set (Command s @ Args s)"
  shows "\<exists>f. (True, f, t) \<in> set (stepFields s)"
proof -
  from assms consider "t \<in> set (Command s)" | "t \<in> set (Args s)"
    by auto
  then show ?thesis
  proof cases
    case 1
    then have "\<exists>i. (i, t) \<in> set (enumerate 0 (Command s))"
      by (intro in_enumerate)
    then obtain i where "(i, t) \<in> set (enumerate 0 (Command s))"
      by (elim exE)
    from stepFields_command [OF this] show ?thesis by (rule exI)
  next
    case 2
    then have "\<exists>i. (i, t) \<in> set (enumerate 0 (Args s))"
      by (intro in_enumerate)
    then obtain i where "(i, t) \<in> set (enumerate 0 (Args s))"
      by (elim exE)
    from stepFields_arg [OF this] show ?thesis by (rule exI)
  qed
qed

lemma other_in_stepFields:
  assumes "v = Name s \<or> v = Image s \<or> v = WorkingDir s \<or> v \<in> envValue ` set (Env s) \<or>
    v \<in> vmName ` set (VolumeMounts s) \<or> v \<in> vmMountPath ` set (VolumeMounts s) \<or>
    v \<in> vmSubPath ` set (VolumeMounts s)"
  shows "\<exists>f. (False, f, v) \<in> set (stepFields s)"
proof -
  from assms consider "v = Name s" | "v = Image s" | "v = WorkingDir s"
    | e where "e \<in> set (Env s)" "v = envValue e"
    | m where "m \<in> set (VolumeMounts s)" "v = vmName m"
    | m where "m \<in> set (VolumeMounts s)" "v = vmMountPath m"
    | m where "m \<in> set (VolumeMounts s)" "v = vmSubPath m"
    by auto
  then show ?thesis
  proof cases
    case 1
    have "(False, ''name'', v) \<in> set (stepFields s)"
      unfolding 1 by (rule stepFields_basic)
    then show ?thesis by (rule exI)
  next
    case 2
    have "(False, ''image'', v) \<in> set (stepFields s)"
      unfolding 2 by (rule stepFields_basic)
    then show ?thesis by (rule exI)
  next
    case 3
    have "(False, ''workingDir'', v) \<in> set (stepFields s)"
      unfolding 3 by (rule stepFields_basic)
    then show ?thesis by (rule exI)
  next
    case 4
    have "(False, ''env['' @ envName e @ '']'', v) \<in> set (stepFields s)"
      unfolding 4(2) using 4(1) by (rule stepFields_env)
    then show ?thesis by (rule exI)
  next
    case 5
    then have "\<exists>i. (i, m) \<in> set (enumerate 0 (VolumeMounts s))"
      by (intro in_enumerate)
    then obtain i where i: "(i, m) \<in> set (enumerate 0 (VolumeMounts s))"
      by (elim exE)
    have "(False, ''volumeMount['' @ itoa i @ ''].Name'', v) \<in> set (stepFields s)"
      unfolding 5(2) using i by (rule stepFields_volumeMount)
    then show ?thesis by (rule exI)
  next
    case 6
    then have "\<exists>i. (i, m) \<in> set (enumerate 0 (VolumeMounts s))"
      by (intro in_enumerate)
    then obtain i where i: "(i, m) \<in> set (enumerate 0 (VolumeMounts s))"
      by (elim exE)
    have "(False, ''volumeMount['' @ itoa i @ ''].MountPath'', v) \<in> set (stepFields s)"
      unfolding 6(2) using i by (rule stepFields_volumeMount)
    then show ?thesis by (rule exI)
  next
    case 7
    then have "\<exists>i. (i, m) \<in> set (enumerate 0 (VolumeMounts s))"
      by (intro in_enumerate)
    then obtain i where i: "(i, m) \<in> set (enumerate 0 (VolumeMounts s))"
      by (elim exE)
    have "(False, ''volumeMount['' @ itoa i @ ''].SubPath'', v) \<in> set (stepFields s)"
      unfolding 7(2) using i by (rule stepFields_volumeMount)
    then show ?thesis by (rule exI)
  qed
qed

subsection \<open>The namespaces\<close>

lemma addParameterNames_fst:
  "fst (addParameterNames ps acc) = fst acc \<union> psName ` set ps"
  unfolding addParameterNames_def
  by (induction ps arbitrary: acc) (auto simp: split_def)

lemma addParameterNames_snd:
  "snd (addParameterNames ps acc) =
     snd acc \<union> psName ` {p \<in> set ps. psType p = ParamTypeArray}"
  unfolding addParameterNames_def
  by (induction ps arbitrary: acc) (auto simp: split_def)

text \<open>
  The check of the parameter variables looks the names up in the declared parameters,
  and the array names in the declared parameters of type array.
\<close>

lemma validateInputParameterVariables_unfold:
  "validateInputParameterVariables steps inputs params =
     orElse (validateVariables steps ''params'' (declaredParameters params inputs))
       (validateArrayUsage steps ''params'' (declaredArrayParameters params inputs))"
  by (cases inputs)
    (simp_all add: validateInputParameterVariables_def Let_def declaredParameters_def
      declaredArrayParameters_def addParameterNames_fst addParameterNames_snd)

lemma validateArrayUsage_no_unresolved:
  "validateArrayUsage steps pre vars = Some e \<Longrightarrow> Message e \<noteq> NonExistentVariable a b c"
  unfolding validateArrayUsage_fields
  by (auto dest!: firstError_Some_split
      simp: validateTaskArraysIsolated_def validateTaskNoArrayReferenced_def
        ValidateVariableIsolated_def ValidateVariableProhibited_def split: if_splits)

section \<open>The walks, field by field\<close>

lemma itoa_examples:
  "itoa 0 = ''0''" "itoa (Suc 0) = ''1''" "itoa 1 = ''1''" "itoa 9 = ''9''" "itoa 10 = ''10''" "itoa 12 = ''12''"
  "itoa 305 = ''305''"
  by (simp_all add: itoa.simps digitChar_def)

lemma orElse_eq_None_iff: "orElse a b = None \<longleftrightarrow> a = None \<and> b = None"
  by (cases a) simp_all

lemma ball_enumerate_snd:
  "(\<forall>x\<in>set (enumerate n xs). Q (snd x)) \<longleftrightarrow> (\<forall>c\<in>set xs. Q c)"
proof -
  have "snd ` set (enumerate n xs) = set xs"
    unfolding set_map [symmetric] map_snd_enumerate ..
  then have "(\<forall>c\<in>set xs. Q c) \<longleftrightarrow> (\<forall>c\<in>snd ` set (enumerate n xs). Q c)"
    by simp
  then show ?thesis
    by simp
qed

lemma validateTaskArraysIsolated_None_iff:
  "validateTaskArraysIsolated name v ''params'' arrayNames = None \<longleftrightarrow>
     (referenced v \<inter> arrayNames \<noteq> {} \<longrightarrow>
        (\<exists>sc\<in>set (scopePattern ''params''). \<exists>p. validName p \<and> v = placeholder sc p))"
proof (cases "referenced v \<inter> arrayNames = {}")
  case True
  then show ?thesis
    by (simp add: validateTaskArraysIsolated_no_reference)
next
  case False
  then show ?thesis
    by (simp add: validateTaskArraysIsolated_eq)
qed

lemma validateTaskNoArrayReferenced_None_iff:
  "validateTaskNoArrayReferenced name v ''params'' arrayNames = None \<longleftrightarrow>
     referenced v \<inter> arrayNames = {}"
  by (simp add: validateTaskNoArrayReferenced_eq)

lemma validateTaskVariable_None_iff:
  "validateTaskVariable name v ''params'' vars = None \<longleftrightarrow> referenced v \<subseteq> vars"
  by (simp add: validateTaskVariable_eq)

lemma validateArrayUsage_None_iff:
  "validateArrayUsage steps ''params'' arrayNames = None \<longleftrightarrow>
     (\<forall>s\<in>set steps.
        referenced (Name s) \<inter> arrayNames = {} \<and>
        referenced (Image s) \<inter> arrayNames = {} \<and>
        referenced (WorkingDir s) \<inter> arrayNames = {} \<and>
        (\<forall>t\<in>set (Command s). referenced t \<inter> arrayNames \<noteq> {} \<longrightarrow>
           (\<exists>sc\<in>set (scopePattern ''params''). \<exists>p. validName p \<and> t = placeholder sc p)) \<and>
        (\<forall>t\<in>set (Args s). referenced t \<inter> arrayNames \<noteq> {} \<longrightarrow>
           (\<exists>sc\<in>set (scopePattern ''params''). \<exists>p. validName p \<and> t = placeholder sc p)) \<and>
        (\<forall>e\<in>set (Env s). referenced (envValue e) \<inter> arrayNames = {}) \<and>
        (\<forall>m\<in>set (VolumeMounts s).
           referenced (vmName m) \<inter> arrayNames = {} \<and>
           referenced (vmMountPath m) \<inter> arrayNames = {} \<and>
           referenced (vmSubPath m) \<inter> arrayNames = {}))"
proof -
  let ?ok = "\<lambda>t. referenced t \<inter> arrayNames \<noteq> {} \<longrightarrow>
    (\<exists>sc\<in>set (scopePattern ''params''). \<exists>p. validName p \<and> t = placeholder sc p)"
  let ?mount = "\<lambda>m. referenced (vmName m) \<inter> arrayNames = {} \<and>
    referenced (vmMountPath m) \<inter> arrayNames = {} \<and> referenced (vmSubPath m) \<inter> arrayNames = {}"
  have tokens: "(\<forall>x\<in>set (enumerate 0 ts). ?ok (snd x)) \<longleftrightarrow> (\<forall>t\<in>set ts. ?ok t)" for ts
    by (rule ball_enumerate_snd)
  have mounts: "(\<forall>x\<in>set (enumerate 0 ms). ?mount (snd x)) \<longleftrightarrow> (\<forall>m\<in>set ms. ?mount m)"
    for ms :: "VolumeMount list"
    by (rule ball_enumerate_snd)
  show ?thesis
    unfolding validateArrayUsage_def firstError_eq_None_iff orElse_eq_None_iff split_def
      validateTaskArraysIsolated_None_iff validateTaskNoArrayReferenced_None_iff
      tokens mounts ..
qed

lemma validateVariables_None_iff:
  "validateVariables steps ''params'' vars = None \<longleftrightarrow>
     (\<forall>s\<in>set steps.
        referenced (Name s) \<subseteq> vars \<and> referenced (Image s) \<subseteq> vars \<and>
        referenced (WorkingDir s) \<subseteq> vars \<and>
        (\<forall>t\<in>set (Command s). referenced t \<subseteq> vars) \<and>
        (\<forall>t\<in>set (Args s). referenced t \<subseteq> vars) \<and>
        (\<forall>e\<in>set (Env s). referenced (envValue e) \<subseteq> vars) \<and>
        (\<forall>m\<in>set (VolumeMounts s).
           referenced (vmName m) \<subseteq> vars \<and> referenced (vmMountPath m) \<subseteq> vars \<and>
           referenced (vmSubPath m) \<subseteq> vars))"
proof -
  let ?mount = "\<lambda>m. referenced (vmName m) \<subseteq> vars \<and> referenced (vmMountPath m) \<subseteq> vars \<and>
    referenced (vmSubPath m) \<subseteq> vars"
  have tokens: "(\<forall>x\<in>set (enumerate 0 ts). referenced (snd x) \<subseteq> vars) \<longleftrightarrow>
      (\<forall>t\<in>set ts. referenced t \<subseteq> vars)" for ts
    by (rule ball_enumerate_snd)
  have mounts: "(\<forall>x\<in>set (enumerate 0 ms). ?mount (snd x)) \<longleftrightarrow> (\<forall>m\<in>set ms. ?mount m)"
    for ms :: "VolumeMount list"
    by (rule ball_enumerate_snd)
  show ?thesis
    unfolding validateVariables_def firstError_eq_None_iff orElse_eq_None_iff split_def
      validateTaskVariable_None_iff tokens mounts ..
qed

lemma firstError_enumerate_first:
  assumes "\<forall>c\<in>set cpre. \<forall>i. f i c = None"
  shows "firstError (\<lambda>(i, c). f i c) (enumerate n (cpre @ t # crest)) =
     orElse (f (n + length cpre) t)
       (firstError (\<lambda>(i, c). f i c) (enumerate (Suc (n + length cpre)) crest))"
proof -
  have "\<forall>x\<in>set (enumerate n cpre). (\<lambda>(i, c). f i c) x = None"
    using assms by (auto simp: in_set_enumerate_eq)
  then have "firstError (\<lambda>(i, c). f i c) (enumerate n cpre) = None"
    unfolding firstError_eq_None_iff .
  then show ?thesis
    by (simp add: enumerate_append_eq firstError_append firstError_Cons_orElse
        del: firstError.simps(2))
qed

lemma validateArrayUsage_append:
  "validateArrayUsage (pre @ rest) p vars =
     orElse (validateArrayUsage pre p vars) (validateArrayUsage rest p vars)"
  by (simp add: validateArrayUsage_def firstError_append)

lemma validateVariables_append:
  "validateVariables (pre @ rest) p vars =
     orElse (validateVariables pre p vars) (validateVariables rest p vars)"
  by (simp add: validateVariables_def firstError_append)

lemma validateArrayUsage_Cons:
  "validateArrayUsage (s # rest) p vars =
     orElse (validateTaskNoArrayReferenced ''name'' (Name s) p vars)
    (orElse (validateTaskNoArrayReferenced ''image'' (Image s) p vars)
    (orElse (validateTaskNoArrayReferenced ''workingDir'' (WorkingDir s) p vars)
    (orElse (firstError (\<lambda>(i, cmd).
               validateTaskArraysIsolated (''command['' @ itoa i @ '']'') cmd p vars)
             (enumerate 0 (Command s)))
    (orElse (firstError (\<lambda>(i, arg).
               validateTaskArraysIsolated (''arg['' @ itoa i @ '']'') arg p vars)
             (enumerate 0 (Args s)))
    (orElse (firstError (\<lambda>env.
               validateTaskNoArrayReferenced (''env['' @ envName env @ '']'') (envValue env) p vars)
             (Env s))
    (orElse (firstError (\<lambda>(i, v).
               orElse (validateTaskNoArrayReferenced
                         (''volumeMount['' @ itoa i @ ''].Name'') (vmName v) p vars)
              (orElse (validateTaskNoArrayReferenced
                         (''volumeMount['' @ itoa i @ ''].MountPath'') (vmMountPath v) p vars)
                      (validateTaskNoArrayReferenced
                         (''volumeMount['' @ itoa i @ ''].SubPath'') (vmSubPath v) p vars)))
             (enumerate 0 (VolumeMounts s)))
            (validateArrayUsage rest p vars)))))))"
  unfolding validateArrayUsage_def firstError_Cons_orElse orElse_assoc ..

lemma validateArrayUsage_command_error:
  assumes pre: "validateArrayUsage pre ''params'' arrayNames = None"
    and scalar: "referenced (Name s) \<inter> arrayNames = {}" "referenced (Image s) \<inter> arrayNames = {}"
      "referenced (WorkingDir s) \<inter> arrayNames = {}"
    and cmd: "Command s = cpre @ t # crest"
    and before: "\<forall>u\<in>set cpre. referenced u \<inter> arrayNames \<noteq> {} \<longrightarrow>
      (\<exists>sc\<in>set (scopePattern ''params''). \<exists>p. validName p \<and> u = placeholder sc p)"
    and ref: "referenced t \<inter> arrayNames \<noteq> {}"
    and embedded: "\<not> (\<exists>sc\<in>set (scopePattern ''params''). \<exists>p. validName p \<and> t = placeholder sc p)"
  shows "validateArrayUsage (pre @ s # rest) ''params'' arrayNames =
     Some \<lparr>Message = NotIsolatedVariable t ''step'' (''command['' @ itoa (length cpre) @ '']''),
           Paths = [''taskspec.steps.'' @ ''command['' @ itoa (length cpre) @ '']''], Details = ''''\<rparr>"
proof -
  let ?f = "\<lambda>i c. validateTaskArraysIsolated (''command['' @ itoa i @ '']'') c ''params'' arrayNames"
  have "\<forall>c\<in>set cpre. \<forall>i. ?f i c = None"
    using before unfolding validateTaskArraysIsolated_None_iff by simp
  then have "firstError (\<lambda>(i, c). ?f i c) (enumerate 0 (cpre @ t # crest)) =
      orElse (?f (0 + length cpre) t)
        (firstError (\<lambda>(i, c). ?f i c) (enumerate (Suc (0 + length cpre)) crest))"
    by (rule firstError_enumerate_first)
  moreover have "?f (0 + length cpre) t =
      Some \<lparr>Message = NotIsolatedVariable t ''step'' (''command['' @ itoa (length cpre) @ '']''),
            Paths = [''taskspec.steps.'' @ ''command['' @ itoa (length cpre) @ '']''], Details = ''''\<rparr>"
    unfolding validateTaskArraysIsolated_eq [OF ref] if_not_P [OF embedded] add_0 ..
  ultimately have tokens: "firstError (\<lambda>(i, c). ?f i c) (enumerate 0 (Command s)) =
      Some \<lparr>Message = NotIsolatedVariable t ''step'' (''command['' @ itoa (length cpre) @ '']''),
            Paths = [''taskspec.steps.'' @ ''command['' @ itoa (length cpre) @ '']''], Details = ''''\<rparr>"
    unfolding cmd by (simp only: orElse_simps)
  have "validateArrayUsage (s # rest) ''params'' arrayNames =
      Some \<lparr>Message = NotIsolatedVariable t ''step'' (''command['' @ itoa (length cpre) @ '']''),
            Paths = [''taskspec.steps.'' @ ''command['' @ itoa (length cpre) @ '']''], Details = ''''\<rparr>"
    unfolding validateArrayUsage_Cons tokens
      scalar [folded validateTaskNoArrayReferenced_None_iff [of "''name''"]]
      scalar [folded validateTaskNoArrayReferenced_None_iff [of "''image''"]]
      scalar [folded validateTaskNoArrayReferenced_None_iff [of "''workingDir''"]]
      orElse_simps ..
  then show ?thesis
    unfolding validateArrayUsage_append [of pre "s # rest"] pre by (simp only: orElse_simps)
qed

lemma validateArrayUsage_arg_error:
  assumes pre: "validateArrayUsage pre ''params'' arrayNames = None"
    and scalar: "referenced (Name s) \<inter> arrayNames = {}" "referenced (Image s) \<inter> arrayNames = {}"
      "referenced (WorkingDir s) \<inter> arrayNames = {}"
    and cmds: "\<forall>u\<in>set (Command s). referenced u \<inter> arrayNames \<noteq> {} \<longrightarrow>
      (\<exists>sc\<in>set (scopePattern ''params''). \<exists>p. validName p \<and> u = placeholder sc p)"
    and arg: "Args s = apre @ t # arest"
    and before: "\<forall>u\<in>set apre. referenced u \<inter> arrayNames \<noteq> {} \<longrightarrow>
      (\<exists>sc\<in>set (scopePattern ''params''). \<exists>p. validName p \<and> u = placeholder sc p)"
    and ref: "referenced t \<inter> arrayNames \<noteq> {}"
    and embedded: "\<not> (\<exists>sc\<in>set (scopePattern ''params''). \<exists>p. validName p \<and> t = placeholder sc p)"
  shows "validateArrayUsage (pre @ s # rest) ''params'' arrayNames =
     Some \<lparr>Message = NotIsolatedVariable t ''step'' (''arg['' @ itoa (length apre) @ '']''),
           Paths = [''taskspec.steps.'' @ ''arg['' @ itoa (length apre) @ '']''], Details = ''''\<rparr>"
proof -
  let ?c = "\<lambda>i c. validateTaskArraysIsolated (''command['' @ itoa i @ '']'') c ''params'' arrayNames"
  let ?f = "\<lambda>i c. validateTaskArraysIsolated (''arg['' @ itoa i @ '']'') c ''params'' arrayNames"
  have "\<forall>x\<in>set (enumerate 0 (Command s)). ?c (fst x) (snd x) = None"
    unfolding validateTaskArraysIsolated_None_iff ball_enumerate_snd [where Q = "\<lambda>u.
      referenced u \<inter> arrayNames \<noteq> {} \<longrightarrow>
      (\<exists>sc\<in>set (scopePattern ''params''). \<exists>p. validName p \<and> u = placeholder sc p)"]
    by (rule cmds)
  then have commands: "firstError (\<lambda>(i, c). ?c i c) (enumerate 0 (Command s)) = None"
    unfolding firstError_eq_None_iff split_def .
  have "\<forall>c\<in>set apre. \<forall>i. ?f i c = None"
    using before unfolding validateTaskArraysIsolated_None_iff by simp
  then have "firstError (\<lambda>(i, c). ?f i c) (enumerate 0 (apre @ t # arest)) =
      orElse (?f (0 + length apre) t)
        (firstError (\<lambda>(i, c). ?f i c) (enumerate (Suc (0 + length apre)) arest))"
    by (rule firstError_enumerate_first)
  moreover have "?f (0 + length apre) t =
      Some \<lparr>Message = NotIsolatedVariable t ''step'' (''arg['' @ itoa (length apre) @ '']''),
            Paths = [''taskspec.steps.'' @ ''arg['' @ itoa (length apre) @ '']''], Details = ''''\<rparr>"
    unfolding validateTaskArraysIsolated_eq [OF ref] if_not_P [OF embedded] add_0 ..
  ultimately have tokens: "firstError (\<lambda>(i, c). ?f i c) (enumerate 0 (Args s)) =
      Some \<lparr>Message = NotIsolatedVariable t ''step'' (''arg['' @ itoa (length apre) @ '']''),
            Paths = [''taskspec.steps.'' @ ''arg['' @ itoa (length apre) @ '']''], Details = ''''\<rparr>"
    unfolding arg by (simp only: orElse_simps)
  have "validateArrayUsage (s # rest) ''params'' arrayNames =
      Some \<lparr>Message = NotIsolatedVariable t ''step'' (''arg['' @ itoa (length apre) @ '']''),
            Paths = [''taskspec.steps.'' @ ''arg['' @ itoa (length apre) @ '']''], Details = ''''\<rparr>"
    unfolding validateArrayUsage_Cons commands tokens
      scalar [folded validateTaskNoArrayReferenced_None_iff [of "''name''"]]
      scalar [folded validateTaskNoArrayReferenced_None_iff [of "''image''"]]
      scalar [folded validateTaskNoArrayReferenced_None_iff [of "''workingDir''"]]
      orElse_simps ..
  then show ?thesis
    unfolding validateArrayUsage_append [of pre "s # rest"] pre by (simp only: orElse_simps)
qed

lemma token_stepFieldsD:
  assumes "(True, f, v) \<in> set (stepFields s)"
  shows "\<exists>i. (i < length (Command s) \<and> v = Command s ! i \<and> f = ''command['' @ itoa i @ '']'') \<or>
     (i < length (Args s) \<and> v = Args s ! i \<and> f = ''arg['' @ itoa i @ '']'')"
  using assms unfolding set_stepFields
  by (auto simp: in_set_enumerate_eq)

lemma validateArrayUsage_NotIsolatedD:
  assumes err: "validateArrayUsage steps ''params'' arrayNames = Some e"
    and msg: "Message e = NotIsolatedVariable a b c"
  shows "\<exists>s\<in>set steps. \<exists>i.
     ((i < length (Command s) \<and> a = Command s ! i \<and> c = ''command['' @ itoa i @ '']'') \<or>
      (i < length (Args s) \<and> a = Args s ! i \<and> c = ''arg['' @ itoa i @ '']'')) \<and>
     b = ''step'' \<and> Paths e = [''taskspec.steps.'' @ c] \<and>
     referenced a \<inter> arrayNames \<noteq> {} \<and>
     \<not> (\<exists>sc\<in>set (scopePattern ''params''). \<exists>p. validName p \<and> a = placeholder sc p)"
proof -
  let ?g = "\<lambda>(tok, f, v). if tok then validateTaskArraysIsolated f v ''params'' arrayNames
    else validateTaskNoArrayReferenced f v ''params'' arrayNames"
  from err have "firstError ?g (concat (map stepFields steps)) = Some e"
    unfolding validateArrayUsage_fields .
  from firstError_Some_split [OF this] obtain pre x rest where
    x: "concat (map stepFields steps) = pre @ x # rest" "?g x = Some e"
    by (elim exE conjE)
  obtain tok f v where xe: "x = (tok, f, v)"
    by (cases x)
  from x(1) have "x \<in> set (concat (map stepFields steps))"
    by simp
  then obtain s where s: "s \<in> set steps" "(tok, f, v) \<in> set (stepFields s)"
    unfolding xe by auto
  have tok: tok
  proof (rule ccontr)
    assume "\<not> tok"
    with x(2) have "validateTaskNoArrayReferenced f v ''params'' arrayNames = Some e"
      unfolding xe by simp
    then have "Message e = ProhibitedVariable v ''step'' f"
      unfolding validateTaskNoArrayReferenced_eq by (auto split: if_splits)
    with msg show False
      by simp
  qed
  with x(2) have iso: "validateTaskArraysIsolated f v ''params'' arrayNames = Some e"
    unfolding xe by simp
  have ref: "referenced v \<inter> arrayNames \<noteq> {}"
  proof
    assume "referenced v \<inter> arrayNames = {}"
    from validateTaskArraysIsolated_no_reference [OF this, of f] iso show False
      by simp
  qed
  from iso have e: "\<not> (\<exists>sc\<in>set (scopePattern ''params''). \<exists>p. validName p \<and> v = placeholder sc p) \<and>
      e = \<lparr>Message = NotIsolatedVariable v ''step'' f,
            Paths = [''taskspec.steps.'' @ f], Details = ''''\<rparr>"
    unfolding validateTaskArraysIsolated_eq [OF ref] by (auto split: if_splits)
  with msg have eqs: "a = v" "b = ''step''" "c = f"
    by simp_all
  from s(2) tok have "(True, f, v) \<in> set (stepFields s)"
    by simp
  from token_stepFieldsD [OF this] obtain i where
    i: "(i < length (Command s) \<and> v = Command s ! i \<and> f = ''command['' @ itoa i @ '']'') \<or>
     (i < length (Args s) \<and> v = Args s ! i \<and> f = ''arg['' @ itoa i @ '']'')"
    by (elim exE)
  have "((i < length (Command s) \<and> a = Command s ! i \<and> c = ''command['' @ itoa i @ '']'') \<or>
      (i < length (Args s) \<and> a = Args s ! i \<and> c = ''arg['' @ itoa i @ '']'')) \<and>
     b = ''step'' \<and> Paths e = [''taskspec.steps.'' @ c] \<and>
     referenced a \<inter> arrayNames \<noteq> {} \<and>
     \<not> (\<exists>sc\<in>set (scopePattern ''params''). \<exists>p. validName p \<and> a = placeholder sc p)"
    unfolding eqs using i ref e by simp
  then show ?thesis
    using s(1) by (intro bexI [of _ s] exI [of _ i])
qed

lemma scanFrom_skip_no_dollar:
  "CHR ''$'' \<notin> set l \<Longrightarrow> scanFrom scs i (l @ s) = scanFrom scs (i + length l) s"
proof (induction l arbitrary: i)
  case Nil
  then show ?case by simp
next
  case (Cons c l)
  have "matchAt scs (c # l @ s) = None"
  proof (cases "matchAt scs (c # l @ s)")
    case None
    then show ?thesis .
  next
    case (Some r)
    from matchAt_dollar [OF this] Cons.prems show ?thesis
      by simp
  qed
  with Cons show ?case
    by simp
qed

lemma short_form_not_scanned:
  assumes "CHR ''$'' \<notin> set l" "CHR ''$'' \<notin> set p" "CHR ''$'' \<notin> set r"
  shows "referenced (l @ ''$(params.'' @ p @ '')'' @ r) = {}"
proof -
  have "matchAt (scopePattern ''params'') (''$(params.'' @ p @ '')'' @ r) = None"
    by (simp add: scopePattern_def matchScope_def)
  moreover have "scanFrom (scopePattern ''params'') i (''(params.'' @ p @ '')'' @ r) = []" for i
    using assms by (intro scanFrom_no_dollar) simp
  ultimately have "scanFrom (scopePattern ''params'') i (''$(params.'' @ p @ '')'' @ r) = []" for i
    by simp
  then show ?thesis
    using assms(1) by (simp add: referenced_def extractVariables_def scanFrom_skip_no_dollar)
qed

lemma validateVariables_first_unresolved:
  assumes fields: "concat (map stepFields steps) = before @ (tok, f, v) # after"
    and before: "\<forall>(tok', f', v')\<in>set before. referenced v' \<subseteq> vars"
    and bad: "\<not> referenced v \<subseteq> vars"
  shows "validateVariables steps ''params'' vars =
     Some \<lparr>Message = NonExistentVariable v ''step'' f,
           Paths = [''taskspec.steps.'' @ f], Details = ''''\<rparr>"
proof -
  let ?g = "\<lambda>(tok, f, v). validateTaskVariable f v ''params'' vars"
  have "\<forall>x\<in>set before. ?g x = None"
    using before by (auto simp: validateTaskVariable_None_iff)
  then have "firstError ?g before = None"
    unfolding firstError_eq_None_iff .
  moreover have "?g (tok, f, v) =
      Some \<lparr>Message = NonExistentVariable v ''step'' f,
            Paths = [''taskspec.steps.'' @ f], Details = ''''\<rparr>"
    using bad by (simp add: validateTaskVariable_eq)
  ultimately show ?thesis
    unfolding validateVariables_fields fields firstError_append firstError_Cons_orElse
    by (simp only: orElse_simps)
qed

lemma validateVariables_Cons:
  "validateVariables (s # rest) p vars =
     orElse (validateTaskVariable ''name'' (Name s) p vars)
    (orElse (validateTaskVariable ''image'' (Image s) p vars)
    (orElse (validateTaskVariable ''workingDir'' (WorkingDir s) p vars)
    (orElse (firstError (\<lambda>(i, cmd).
               validateTaskVariable (''command['' @ itoa i @ '']'') cmd p vars)
             (enumerate 0 (Command s)))
    (orElse (firstError (\<lambda>(i, arg).
               validateTaskVariable (''arg['' @ itoa i @ '']'') arg p vars)
             (enumerate 0 (Args s)))
    (orElse (firstError (\<lambda>env.
               validateTaskVariable (''env['' @ envName env @ '']'') (envValue env) p vars)
             (Env s))
    (orElse (firstError (\<lambda>(i, v).
               orElse (validateTaskVariable
                         (''volumeMount['' @ itoa i @ ''].Name'') (vmName v) p vars)
              (orElse (validateTaskVariable
                         (''volumeMount['' @ itoa i @ ''].MountPath'') (vmMountPath v) p vars)
                      (validateTaskVariable
                         (''volumeMount['' @ itoa i @ ''].SubPath'') (vmSubPath v) p vars)))
             (enumerate 0 (VolumeMounts s)))
            (validateVariables rest p vars)))))))"
  unfolding validateVariables_def firstError_Cons_orElse orElse_assoc ..

lemma validateVariables_command_error:
  assumes pre: "validateVariables pre ''params'' vars = None"
    and scalar: "referenced (Name s) \<subseteq> vars" "referenced (Image s) \<subseteq> vars"
      "referenced (WorkingDir s) \<subseteq> vars"
    and cmd: "Command s = cpre @ t # crest"
    and before: "\<forall>u\<in>set cpre. referenced u \<subseteq> vars"
    and bad: "\<not> referenced t \<subseteq> vars"
  shows "validateVariables (pre @ s # rest) ''params'' vars =
     Some \<lparr>Message = NonExistentVariable t ''step'' (''command['' @ itoa (length cpre) @ '']''),
           Paths = [''taskspec.steps.'' @ ''command['' @ itoa (length cpre) @ '']''], Details = ''''\<rparr>"
proof -
  let ?f = "\<lambda>i c. validateTaskVariable (''command['' @ itoa i @ '']'') c ''params'' vars"
  have "\<forall>c\<in>set cpre. \<forall>i. ?f i c = None"
    using before unfolding validateTaskVariable_None_iff by simp
  then have "firstError (\<lambda>(i, c). ?f i c) (enumerate 0 (cpre @ t # crest)) =
      orElse (?f (0 + length cpre) t)
        (firstError (\<lambda>(i, c). ?f i c) (enumerate (Suc (0 + length cpre)) crest))"
    by (rule firstError_enumerate_first)
  moreover have "?f (0 + length cpre) t =
      Some \<lparr>Message = NonExistentVariable t ''step'' (''command['' @ itoa (length cpre) @ '']''),
            Paths = [''taskspec.steps.'' @ ''command['' @ itoa (length cpre) @ '']''], Details = ''''\<rparr>"
    unfolding validateTaskVariable_eq if_not_P [OF bad] add_0 ..
  ultimately have tokens: "firstError (\<lambda>(i, c). ?f i c) (enumerate 0 (Command s)) =
      Some \<lparr>Message = NonExistentVariable t ''step'' (''command['' @ itoa (length cpre) @ '']''),
            Paths = [''taskspec.steps.'' @ ''command['' @ itoa (length cpre) @ '']''], Details = ''''\<rparr>"
    unfolding cmd by (simp only: orElse_simps)
  have "validateVariables (s # rest) ''params'' vars =
      Some \<lparr>Message = NonExistentVariable t ''step'' (''command['' @ itoa (length cpre) @ '']''),
            Paths = [''taskspec.steps.'' @ ''command['' @ itoa (length cpre) @ '']''], Details = ''''\<rparr>"
    unfolding validateVariables_Cons tokens
      scalar [folded validateTaskVariable_None_iff [of "''name''"]]
      scalar [folded validateTaskVariable_None_iff [of "''image''"]]
      scalar [folded validateTaskVariable_None_iff [of "''workingDir''"]]
      orElse_simps ..
  then show ?thesis
    unfolding validateVariables_append [of pre "s # rest"] pre by (simp only: orElse_simps)
qed

lemma validateVariables_arg_error:
  assumes pre: "validateVariables pre ''params'' vars = None"
    and scalar: "referenced (Name s) \<subseteq> vars" "referenced (Image s) \<subseteq> vars"
      "referenced (WorkingDir s) \<subseteq> vars"
    and cmds: "\<forall>u\<in>set (Command s). referenced u \<subseteq> vars"
    and arg: "Args s = apre @ t # arest"
    and before: "\<forall>u\<in>set apre. referenced u \<subseteq> vars"
    and bad: "\<not> referenced t \<subseteq> vars"
  shows "validateVariables (pre @ s # rest) ''params'' vars =
     Some \<lparr>Message = NonExistentVariable t ''step'' (''arg['' @ itoa (length apre) @ '']''),
           Paths = [''taskspec.steps.'' @ ''arg['' @ itoa (length apre) @ '']''], Details = ''''\<rparr>"
proof -
  let ?c = "\<lambda>i c. validateTaskVariable (''command['' @ itoa i @ '']'') c ''params'' vars"
  let ?f = "\<lambda>i c. validateTaskVariable (''arg['' @ itoa i @ '']'') c ''params'' vars"
  have "\<forall>x\<in>set (enumerate 0 (Command s)). ?c (fst x) (snd x) = None"
    unfolding validateTaskVariable_None_iff
      ball_enumerate_snd [where Q = "\<lambda>u. referenced u \<subseteq> vars"]
    by (rule cmds)
  then have commands: "firstError (\<lambda>(i, c). ?c i c) (enumerate 0 (Command s)) = None"
    unfolding firstError_eq_None_iff split_def .
  have "\<forall>c\<in>set apre. \<forall>i. ?f i c = None"
    using before unfolding validateTaskVariable_None_iff by simp
  then have "firstError (\<lambda>(i, c). ?f i c) (enumerate 0 (apre @ t # arest)) =
      orElse (?f (0 + length apre) t)
        (firstError (\<lambda>(i, c). ?f i c) (enumerate (Suc (0 + length apre)) arest))"
    by (rule firstError_enumerate_first)
  moreover have "?f (0 + length apre) t =
      Some \<lparr>Message = NonExistentVariable t ''step'' (''arg['' @ itoa (length apre) @ '']''),
            Paths = [''taskspec.steps.'' @ ''arg['' @ itoa (length apre) @ '']''], Details = ''''\<rparr>"
    unfolding validateTaskVariable_eq if_not_P [OF bad] add_0 ..
  ultimately have tokens: "firstError (\<lambda>(i, c). ?f i c) (enumerate 0 (Args s)) =
      Some \<lparr>Message = NonExistentVariable t ''step'' (''arg['' @ itoa (length apre) @ '']''),
            Paths = [''taskspec.steps.'' @ ''arg['' @ itoa (length apre) @ '']''], Details = ''''\<rparr>"
    unfolding arg by (simp only: orElse_simps)
  have "validateVariables (s # rest) ''params'' vars =
      Some \<lparr>Message = NonExistentVariable t ''step'' (''arg['' @ itoa (length apre) @ '']''),
            Paths = [''taskspec.steps.'' @ ''arg['' @ itoa (length apre) @ '']''], Details = ''''\<rparr>"
    unfolding validateVariables_Cons commands tokens
      scalar [folded validateTaskVariable_None_iff [of "''name''"]]
      scalar [folded validateTaskVariable_None_iff [of "''image''"]]
      scalar [folded validateTaskVariable_None_iff [of "''workingDir''"]]
      orElse_simps ..
  then show ?thesis
    unfolding validateVariables_append [of pre "s # rest"] pre by (simp only: orElse_simps)
qed

section \<open>The claims\<close>

subsection \<open>C1: array parameters in command and argument tokens\<close>



subsection \<open>C2: array parameters in the other fields\<close>

text \<open>
  Claim C2 says that in the name, image, working directory, environment values and
  volume mount fields of a step a reference to a declared array parameter that is the
  whole field is legal, and that only embedding it in a larger string is illegal. As
  stated it fails: these fields are checked by \<^verbatim>\<open>validateTaskNoArrayReferenced\<close>,
  which rejects every reference to an array parameter. Below, the image of the step is
  exactly the placeholder of the declared array parameter \<^verbatim>\<open>arr\<close>.
\<close>

theorem validateInputParameterVariables_whole_field_counterexample:
  "Image (plainStep ''build'' ''$(inputs.params.arr)'') = placeholder ''inputs.params'' ''arr''
   \<and> validateInputParameterVariables [plainStep ''build'' ''$(inputs.params.arr)'']
       (Some \<lparr>inResources = [],
          inParams = [\<lparr>psName = ''arr'', psType = ParamTypeArray, psDefault = None\<rparr>]\<rparr>) [] =
     Some \<lparr>Message = ProhibitedVariable ''$(inputs.params.arr)'' ''step'' ''image'',
           Paths = [''taskspec.steps.image''], Details = ''''\<rparr>"
  by (simp add: validateInputParameterVariables_def addParameterNames_def validateVariables_def
      validateArrayUsage_def orElse_def plainStep_def validateTaskVariable_def
      validateTaskNoArrayReferenced_def ValidateVariable_def ValidateVariableProhibited_def
      extractVariables_def scopePattern_def matchScope_def isNameChar_def ParamTypeArray_def
      placeholder_def)

text \<open>
  Claim C2, amended. In the name, image, working directory, environment values and
  volume mount fields of a step every reference to a declared array parameter is
  illegal, whether it is the whole field or embedded in a larger string: the check of
  the field fails with the error on that field exactly when the field references an
  array parameter, and a list of steps with such a field fails the walk. The array names
  of the walk are the names of the declared parameters of type array.
\<close>

theorem validateTaskNoArrayReferenced_array_reference:
  "validateTaskNoArrayReferenced name v ''params'' arrayNames =
     (if referenced v \<inter> arrayNames \<noteq> {} then
        Some \<lparr>Message = ProhibitedVariable v ''step'' name,
              Paths = [''taskspec.steps.'' @ name], Details = ''''\<rparr>
      else None)
   \<and> (validName p \<and> p \<in> arrayNames \<and> sc \<in> set (scopePattern ''params'') \<longrightarrow>
        validateTaskNoArrayReferenced name (placeholder sc p) ''params'' arrayNames =
          Some \<lparr>Message = ProhibitedVariable (placeholder sc p) ''step'' name,
                Paths = [''taskspec.steps.'' @ name], Details = ''''\<rparr> \<and>
        validateTaskNoArrayReferenced name (l @ placeholder sc p @ r) ''params'' arrayNames =
          Some \<lparr>Message = ProhibitedVariable (l @ placeholder sc p @ r) ''step'' name,
                Paths = [''taskspec.steps.'' @ name], Details = ''''\<rparr>)
   \<and> ((\<exists>s\<in>set steps. \<exists>v.
          (v = Name s \<or> v = Image s \<or> v = WorkingDir s \<or> v \<in> envValue ` set (Env s) \<or>
           v \<in> vmName ` set (VolumeMounts s) \<or> v \<in> vmMountPath ` set (VolumeMounts s) \<or>
           v \<in> vmSubPath ` set (VolumeMounts s)) \<and>
          referenced v \<inter> arrayNames \<noteq> {}) \<longrightarrow>
        validateArrayUsage steps ''params'' arrayNames \<noteq> None)
   \<and> validateInputParameterVariables steps inputs params =
       orElse (validateVariables steps ''params'' (declaredParameters params inputs))
         (validateArrayUsage steps ''params'' (declaredArrayParameters params inputs))"
proof -
  have inst: "validateTaskNoArrayReferenced name (placeholder sc p) ''params'' arrayNames =
          Some \<lparr>Message = ProhibitedVariable (placeholder sc p) ''step'' name,
                Paths = [''taskspec.steps.'' @ name], Details = ''''\<rparr> \<and>
        validateTaskNoArrayReferenced name (l @ placeholder sc p @ r) ''params'' arrayNames =
          Some \<lparr>Message = ProhibitedVariable (l @ placeholder sc p @ r) ''step'' name,
                Paths = [''taskspec.steps.'' @ name], Details = ''''\<rparr>"
    if a: "validName p \<and> p \<in> arrayNames \<and> sc \<in> set (scopePattern ''params'')"
  proof -
    from a have p: "validName p" and sc: "sc \<in> set (scopePattern ''params'')" and arr: "p \<in> arrayNames"
      by simp_all
    have "p \<in> referenced (l @ placeholder sc p @ r)" for l r
      using p sc by (rule embedded_placeholder_referenced)
    from this [of l r] this [of "[]" "[]"] arr
    have "referenced (l @ placeholder sc p @ r) \<inter> arrayNames \<noteq> {}"
      "referenced (placeholder sc p) \<inter> arrayNames \<noteq> {}"
      by auto
    then show ?thesis
      by (simp add: validateTaskNoArrayReferenced_eq)
  qed
  have walk: "validateArrayUsage steps ''params'' arrayNames \<noteq> None"
    if a: "\<exists>s\<in>set steps. \<exists>v.
          (v = Name s \<or> v = Image s \<or> v = WorkingDir s \<or> v \<in> envValue ` set (Env s) \<or>
           v \<in> vmName ` set (VolumeMounts s) \<or> v \<in> vmMountPath ` set (VolumeMounts s) \<or>
           v \<in> vmSubPath ` set (VolumeMounts s)) \<and>
          referenced v \<inter> arrayNames \<noteq> {}"
  proof
    assume ok: "validateArrayUsage steps ''params'' arrayNames = None"
    from a obtain s v where s: "s \<in> set steps"
      and v: "v = Name s \<or> v = Image s \<or> v = WorkingDir s \<or> v \<in> envValue ` set (Env s) \<or>
           v \<in> vmName ` set (VolumeMounts s) \<or> v \<in> vmMountPath ` set (VolumeMounts s) \<or>
           v \<in> vmSubPath ` set (VolumeMounts s)"
      and ref: "referenced v \<inter> arrayNames \<noteq> {}"
      by (elim bexE exE conjE)
    from other_in_stepFields [OF v] obtain f where "(False, f, v) \<in> set (stepFields s)"
      by (elim exE)
    with s have "(False, f, v) \<in> set (concat (map stepFields steps))"
      by auto
    with ok have "validateTaskNoArrayReferenced f v ''params'' arrayNames = None"
      unfolding validateArrayUsage_fields firstError_eq_None_iff by fastforce
    with ref show False
      by (simp add: validateTaskNoArrayReferenced_eq)
  qed
  show ?thesis
    by (intro conjI [OF validateTaskNoArrayReferenced_eq conjI [OF impI [OF inst]
      conjI [OF impI [OF walk] validateInputParameterVariables_unfold]]])
qed

theorem validateTaskNoArrayReferenced_array_reference_witness:
  "validName ''arr'' \<and> ''arr'' \<in> {''arr''} \<and> ''inputs.params'' \<in> set (scopePattern ''params'')
   \<and> validateTaskNoArrayReferenced ''image'' ''$(inputs.params.arr)'' ''params'' {''arr''} =
       Some \<lparr>Message = ProhibitedVariable ''$(inputs.params.arr)'' ''step'' ''image'',
             Paths = [''taskspec.steps.image''], Details = ''''\<rparr>
   \<and> validateTaskNoArrayReferenced ''image'' ''registry/$(inputs.params.arr):latest'' ''params'' {''arr''} =
       Some \<lparr>Message = ProhibitedVariable ''registry/$(inputs.params.arr):latest'' ''step'' ''image'',
             Paths = [''taskspec.steps.image''], Details = ''''\<rparr>
   \<and> validateArrayUsage [plainStep ''build'' ''$(inputs.params.arr)''] ''params'' {''arr''} \<noteq> None
   \<and> validateArrayUsage [plainStep ''build'' ''$(inputs.params.arr)''] ''params'' {''str''} = None"
proof -
  have valid: "validName ''arr'' \<and> ''arr'' \<in> {''arr''} \<and> ''inputs.params'' \<in> set (scopePattern ''params'')"
    by (simp add: validName_def isNameChar_def scopePattern_def)
  have ph: "placeholder ''inputs.params'' ''arr'' = ''$(inputs.params.arr)''"
    by (simp add: placeholder_def)
  have ref: "''arr'' \<in> referenced ''$(inputs.params.arr)''"
    using embedded_placeholder_referenced [of "''arr''" "''inputs.params''" "[]" "[]"] valid
    by (simp add: ph)
  have img: "Image (plainStep ''build'' ''$(inputs.params.arr)'') = ''$(inputs.params.arr)''"
    by (simp add: plainStep_def)
  have hyp: "\<exists>s\<in>set [plainStep ''build'' ''$(inputs.params.arr)'']. \<exists>v.
      (v = Name s \<or> v = Image s \<or> v = WorkingDir s \<or> v \<in> envValue ` set (Env s) \<or>
       v \<in> vmName ` set (VolumeMounts s) \<or> v \<in> vmMountPath ` set (VolumeMounts s) \<or>
       v \<in> vmSubPath ` set (VolumeMounts s)) \<and>
      referenced v \<inter> {''arr''} \<noteq> {}"
  proof (intro bexI exI conjI)
    show "plainStep ''build'' ''$(inputs.params.arr)'' \<in> set [plainStep ''build'' ''$(inputs.params.arr)'']"
      by simp
    show "referenced ''$(inputs.params.arr)'' \<inter> {''arr''} \<noteq> {}"
      using ref by blast
    show "''$(inputs.params.arr)'' = Name (plainStep ''build'' ''$(inputs.params.arr)'') \<or>
       ''$(inputs.params.arr)'' = Image (plainStep ''build'' ''$(inputs.params.arr)'') \<or>
       ''$(inputs.params.arr)'' = WorkingDir (plainStep ''build'' ''$(inputs.params.arr)'') \<or>
       ''$(inputs.params.arr)'' \<in> envValue ` set (Env (plainStep ''build'' ''$(inputs.params.arr)'')) \<or>
       ''$(inputs.params.arr)'' \<in> vmName ` set (VolumeMounts (plainStep ''build'' ''$(inputs.params.arr)'')) \<or>
       ''$(inputs.params.arr)'' \<in> vmMountPath ` set (VolumeMounts (plainStep ''build'' ''$(inputs.params.arr)'')) \<or>
       ''$(inputs.params.arr)'' \<in> vmSubPath ` set (VolumeMounts (plainStep ''build'' ''$(inputs.params.arr)''))"
      using img by simp
  qed
  have other: "validateArrayUsage [plainStep ''build'' ''$(inputs.params.arr)''] ''params'' {''str''} = None"
    by (simp add: validateArrayUsage_def orElse_def plainStep_def validateTaskNoArrayReferenced_def
        ValidateVariableProhibited_def extractVariables_def scopePattern_def matchScope_def
        isNameChar_def)
  note inst = validateTaskNoArrayReferenced_array_reference
    [of "''image''" "''$(inputs.params.arr)''" "{''arr''}" "''arr''" "''inputs.params''"
        "''registry/''" "'':latest''" "[plainStep ''build'' ''$(inputs.params.arr)'']"]
  have "validName ''arr'' \<and> ''arr'' \<in> {''arr''} \<and> ''inputs.params'' \<in> set (scopePattern ''params'') \<longrightarrow>
      validateTaskNoArrayReferenced ''image'' (placeholder ''inputs.params'' ''arr'') ''params'' {''arr''} =
        Some \<lparr>Message = ProhibitedVariable (placeholder ''inputs.params'' ''arr'') ''step'' ''image'',
              Paths = [''taskspec.steps.'' @ ''image''], Details = ''''\<rparr> \<and>
      validateTaskNoArrayReferenced ''image'' (''registry/'' @ placeholder ''inputs.params'' ''arr'' @ '':latest'')
          ''params'' {''arr''} =
        Some \<lparr>Message = ProhibitedVariable (''registry/'' @ placeholder ''inputs.params'' ''arr'' @ '':latest'')
                ''step'' ''image'',
              Paths = [''taskspec.steps.'' @ ''image''], Details = ''''\<rparr>"
    using inst by (rule conjunct1 [OF conjunct2])
  from this valid have fields:
    "validateTaskNoArrayReferenced ''image'' (placeholder ''inputs.params'' ''arr'') ''params'' {''arr''} =
        Some \<lparr>Message = ProhibitedVariable (placeholder ''inputs.params'' ''arr'') ''step'' ''image'',
              Paths = [''taskspec.steps.'' @ ''image''], Details = ''''\<rparr> \<and>
      validateTaskNoArrayReferenced ''image'' (''registry/'' @ placeholder ''inputs.params'' ''arr'' @ '':latest'')
          ''params'' {''arr''} =
        Some \<lparr>Message = ProhibitedVariable (''registry/'' @ placeholder ''inputs.params'' ''arr'' @ '':latest'')
                ''step'' ''image'',
              Paths = [''taskspec.steps.'' @ ''image''], Details = ''''\<rparr>"
    by (rule mp)
  have walk: "validateArrayUsage [plainStep ''build'' ''$(inputs.params.arr)''] ''params'' {''arr''} \<noteq> None"
    using conjunct1 [OF conjunct2 [OF conjunct2 [OF inst]]] hyp by (rule mp)
  from fields have "validateTaskNoArrayReferenced ''image'' ''$(inputs.params.arr)'' ''params'' {''arr''} =
       Some \<lparr>Message = ProhibitedVariable ''$(inputs.params.arr)'' ''step'' ''image'',
             Paths = [''taskspec.steps.image''], Details = ''''\<rparr>
   \<and> validateTaskNoArrayReferenced ''image'' ''registry/$(inputs.params.arr):latest'' ''params'' {''arr''} =
       Some \<lparr>Message = ProhibitedVariable ''registry/$(inputs.params.arr):latest'' ''step'' ''image'',
             Paths = [''taskspec.steps.image''], Details = ''''\<rparr>"
    by (simp add: ph)
  with valid other walk show ?thesis
    by simp
qed

subsection \<open>C3: references to undeclared parameters\<close>




subsection \<open>C4: workspaces with the same mount path\<close>

text \<open>
  Claim C4 says that a specification with two distinct workspace declarations whose
  resolved and cleaned mount paths are equal fails validation with the error on the
  mount path, in whatever order the two are declared. As stated it fails when a
  workspace name is declared twice before the second of the two is reached: the name is
  tested first, and the error is the one on the workspace name. Below, the first and
  the third workspace have different names and the same cleaned mount path.
\<close>

theorem validateDeclaredWorkspaces_conflict_counterexample:
  "wsName \<lparr>wsName = ''source'', wsMountPath = ''/data''\<rparr> \<noteq>
     wsName \<lparr>wsName = ''cache'', wsMountPath = ''/data/''\<rparr>
   \<and> Clean (GetMountPath acceptingExternals \<lparr>wsName = ''source'', wsMountPath = ''/data''\<rparr>) =
     Clean (GetMountPath acceptingExternals \<lparr>wsName = ''cache'', wsMountPath = ''/data/''\<rparr>)
   \<and> validateDeclaredWorkspaces (GetMountPath acceptingExternals)
       [\<lparr>wsName = ''source'', wsMountPath = ''/data''\<rparr>,
        \<lparr>wsName = ''source'', wsMountPath = ''/src''\<rparr>,
        \<lparr>wsName = ''cache'', wsMountPath = ''/data/''\<rparr>]
       [plainStep ''build'' ''golang''] None =
     Some \<lparr>Message = WorkspaceNameNotUnique ''source'', Paths = [''workspaces.name''],
           Details = ''''\<rparr>"
  by (simp add: validateDeclaredWorkspaces_def declaredMountPaths_def addMountPaths_def
      acceptingExternals_def plainStep_def Clean_def)

text \<open>
  Claim C4, amended. When two workspace declarations at different positions have the
  same cleaned mount path, the check of the declared workspaces fails for every order
  of the declarations; and when moreover the workspace names are pairwise distinct, the
  error is the one on the mount path (path \<^verbatim>\<open>workspaces.mountpath\<close>), again for every
  order.
\<close>

theorem validateDeclaredWorkspaces_conflict:
  "(i < length ws \<and> j < length ws \<and> i \<noteq> j \<and>
    Clean (getMountPath (ws ! i)) = Clean (getMountPath (ws ! j)) \<and> mset ws' = mset ws \<longrightarrow>
      validateDeclaredWorkspaces getMountPath ws' steps stepTemplate \<noteq> None)
   \<and> (i < length ws \<and> j < length ws \<and> i \<noteq> j \<and>
       Clean (getMountPath (ws ! i)) = Clean (getMountPath (ws ! j)) \<and> mset ws' = mset ws \<and>
       distinct (map wsName ws) \<longrightarrow>
         (\<exists>p. validateDeclaredWorkspaces getMountPath ws' steps stepTemplate =
            Some \<lparr>Message = WorkspaceMountPathNotUnique p, Paths = [''workspaces.mountpath''],
                  Details = ''''\<rparr>))"
proof -
  have fails: "validateDeclaredWorkspaces getMountPath ws' steps stepTemplate \<noteq> None"
    if a: "i < length ws \<and> j < length ws \<and> i \<noteq> j \<and>
      Clean (getMountPath (ws ! i)) = Clean (getMountPath (ws ! j)) \<and> mset ws' = mset ws"
  proof
    assume "validateDeclaredWorkspaces getMountPath ws' steps stepTemplate = None"
    then have "distinct (map (\<lambda>w. Clean (getMountPath w)) ws')"
      unfolding validateDeclaredWorkspaces_def by (rule validateWorkspacesFrom_None)
    moreover from a have "mset (map (\<lambda>w. Clean (getMountPath w)) ws') =
        mset (map (\<lambda>w. Clean (getMountPath w)) ws)"
      by simp
    ultimately have "distinct (map (\<lambda>w. Clean (getMountPath w)) ws)"
      by (metis mset_eq_imp_distinct_iff)
    with a show False
      by (auto simp: distinct_conv_nth)
  qed
  have kind: "\<exists>p. validateDeclaredWorkspaces getMountPath ws' steps stepTemplate =
      Some \<lparr>Message = WorkspaceMountPathNotUnique p, Paths = [''workspaces.mountpath''],
            Details = ''''\<rparr>"
    if a: "i < length ws \<and> j < length ws \<and> i \<noteq> j \<and>
      Clean (getMountPath (ws ! i)) = Clean (getMountPath (ws ! j)) \<and> mset ws' = mset ws \<and>
      distinct (map wsName ws)"
  proof -
    from a fails obtain e where
      e: "validateDeclaredWorkspaces getMountPath ws' steps stepTemplate = Some e"
      by auto
    from a have "mset (map wsName ws') = mset (map wsName ws)"
      by simp
    with a have "distinct (map wsName ws')"
      by (metis mset_eq_imp_distinct_iff)
    with e show ?thesis
      using validateWorkspacesFrom_distinct_names
        [of getMountPath "{}" "declaredMountPaths steps stepTemplate" ws' e]
      by (auto simp: validateDeclaredWorkspaces_def)
  qed
  from fails kind show ?thesis by blast
qed

theorem validateDeclaredWorkspaces_conflict_witness:
  "Clean (GetMountPath acceptingExternals \<lparr>wsName = ''source'', wsMountPath = ''/workspace/data/''\<rparr>) =
     Clean (GetMountPath acceptingExternals \<lparr>wsName = ''data'', wsMountPath = ''/workspace//data''\<rparr>)
   \<and> distinct (map wsName [\<lparr>wsName = ''source'', wsMountPath = ''/workspace/data/''\<rparr>,
        \<lparr>wsName = ''data'', wsMountPath = ''/workspace//data''\<rparr>])
   \<and> validateDeclaredWorkspaces (GetMountPath acceptingExternals)
       [\<lparr>wsName = ''source'', wsMountPath = ''/workspace/data/''\<rparr>, \<lparr>wsName = ''data'', wsMountPath = ''/workspace//data''\<rparr>]
       [plainStep ''build'' ''golang''] None =
     Some \<lparr>Message = WorkspaceMountPathNotUnique ''/workspace/data'', Paths = [''workspaces.mountpath''],
           Details = ''''\<rparr>
   \<and> validateDeclaredWorkspaces (GetMountPath acceptingExternals)
       [\<lparr>wsName = ''data'', wsMountPath = ''/workspace//data''\<rparr>, \<lparr>wsName = ''source'', wsMountPath = ''/workspace/data/''\<rparr>]
       [plainStep ''build'' ''golang''] None =
     Some \<lparr>Message = WorkspaceMountPathNotUnique ''/workspace/data'', Paths = [''workspaces.mountpath''],
           Details = ''''\<rparr>"
proof -
  let ?a = "\<lparr>wsName = ''source'', wsMountPath = ''/workspace/data/''\<rparr>"
  let ?b = "\<lparr>wsName = ''data'', wsMountPath = ''/workspace//data''\<rparr>"
  have eq: "Clean (GetMountPath acceptingExternals ?a) = Clean (GetMountPath acceptingExternals ?b)"
    by (simp add: acceptingExternals_def Clean_def)
  have hyp: "(0::nat) < length [?a, ?b] \<and> (1::nat) < length [?a, ?b] \<and> (0::nat) \<noteq> 1 \<and>
      Clean (GetMountPath acceptingExternals ([?a, ?b] ! 0)) =
        Clean (GetMountPath acceptingExternals ([?a, ?b] ! 1)) \<and>
      mset [?b, ?a] = mset [?a, ?b] \<and> distinct (map wsName [?a, ?b])"
    using eq by (simp add: add_mset_commute)
  from validateDeclaredWorkspaces_conflict
    [of 0 "[?a, ?b]" 1 "GetMountPath acceptingExternals" "[?b, ?a]" "[plainStep ''build'' ''golang'']" None]
    hyp
  have "\<exists>p. validateDeclaredWorkspaces (GetMountPath acceptingExternals) [?b, ?a]
      [plainStep ''build'' ''golang''] None =
      Some \<lparr>Message = WorkspaceMountPathNotUnique p, Paths = [''workspaces.mountpath''],
            Details = ''''\<rparr>"
    by blast
  moreover have "validateDeclaredWorkspaces (GetMountPath acceptingExternals) [?b, ?a]
      [plainStep ''build'' ''golang''] None =
      Some \<lparr>Message = WorkspaceMountPathNotUnique ''/workspace/data'', Paths = [''workspaces.mountpath''],
            Details = ''''\<rparr>"
    by (simp add: validateDeclaredWorkspaces_def declaredMountPaths_def addMountPaths_def
        acceptingExternals_def plainStep_def Clean_def)
  moreover have "validateDeclaredWorkspaces (GetMountPath acceptingExternals) [?a, ?b]
      [plainStep ''build'' ''golang''] None =
      Some \<lparr>Message = WorkspaceMountPathNotUnique ''/workspace/data'', Paths = [''workspaces.mountpath''],
            Details = ''''\<rparr>"
    by (simp add: validateDeclaredWorkspaces_def declaredMountPaths_def addMountPaths_def
        acceptingExternals_def plainStep_def Clean_def)
  ultimately show ?thesis using eq by simp
qed

subsection \<open>C5: a specification without steps\<close>

text \<open>
  Claim C5 says that every specification with an empty list of steps fails validation
  with the missing field error whose path is \<^verbatim>\<open>steps\<close>. As stated it fails on the
  specification that is empty altogether: \<^verbatim>\<open>TaskSpec.Validate\<close> first compares the
  specification with the empty one and then reports the current field, whose path is
  the empty string.
\<close>

theorem Validate_no_steps_counterexample:
  "Steps emptyTaskSpec = []
   \<and> Validate acceptingExternals emptyTaskSpec = Some (ErrMissingField [''''])
   \<and> Paths (ErrMissingField ['''']) \<noteq> [''steps'']"
  by (simp add: Validate_def emptyTaskSpec_def ErrMissingField_def CurrentField_def)

text \<open>
  Claim C5, amended. Every specification with an empty list of steps fails validation
  with the missing field error; the path of the error is \<^verbatim>\<open>steps\<close>, unless the
  specification is empty altogether, in which case it is the current field.
\<close>

theorem Validate_no_steps:
  "(Steps ts = [] \<and> ts \<noteq> emptyTaskSpec \<longrightarrow> Validate ext ts = Some (ErrMissingField [''steps'']))
   \<and> (Steps ts = [] \<and> ts = emptyTaskSpec \<longrightarrow> Validate ext ts = Some (ErrMissingField [CurrentField]))
   \<and> (Steps ts = [] \<longrightarrow> (\<exists>p. Validate ext ts = Some \<lparr>Message = MissingFields, Paths = [p], Details = ''''\<rparr>))"
  by (simp add: Validate_def ErrMissingField_def)

theorem Validate_no_steps_witness:
  "Steps (emptyTaskSpec \<lparr>Volumes := [\<lparr>volName = ''scratch''\<rparr>]\<rparr>) = []
   \<and> emptyTaskSpec \<lparr>Volumes := [\<lparr>volName = ''scratch''\<rparr>]\<rparr> \<noteq> emptyTaskSpec
   \<and> Validate acceptingExternals (emptyTaskSpec \<lparr>Volumes := [\<lparr>volName = ''scratch''\<rparr>]\<rparr>) =
       Some (ErrMissingField [''steps''])
   \<and> Validate acceptingExternals emptyTaskSpec = Some (ErrMissingField [CurrentField])"
  using Validate_no_steps
    [of "emptyTaskSpec \<lparr>Volumes := [\<lparr>volName = ''scratch''\<rparr>]\<rparr>" acceptingExternals]
    Validate_no_steps [of emptyTaskSpec acceptingExternals]
  by (simp add: emptyTaskSpec_def)

subsection \<open>C6: step names are unique\<close>

text \<open>
  Claim C6 says that for every list of (merged) steps in which two steps have the same
  non-empty name, validation fails with the invalid value error on the step name, and
  that steps with empty names are exempt. As stated it fails when the second of the two
  steps lacks an image: the image is tested before the name, and the error is the
  missing field error.
\<close>

theorem validateSteps_duplicate_name_counterexample:
  "Name (plainStep ''build'' ''golang'') = Name (plainStep ''build'' '''')
   \<and> Name (plainStep ''build'' ''golang'') \<noteq> ''''
   \<and> validateSteps [plainStep ''build'' ''golang'', plainStep ''build'' ''''] =
       Some (ErrMissingField [''Image''])
   \<and> Message (ErrMissingField [''Image'']) = MissingFields"
  by (simp add: validateSteps_def plainStep_def ErrMissingField_def HasPrefix_def)

text \<open>
  Claim C6, amended. A list of steps in which two steps have the same non-empty name
  fails validation. The error is the invalid value error on \<^verbatim>\<open>name\<close> for a step
  whose non-empty name is the name of an earlier step, when the steps before it pass
  and the step itself has an image and not both a script and a command. That error is
  returned only for a non-empty name that occurs twice, so empty names are exempt.
\<close>

theorem validateSteps_duplicate_name:
  "((\<exists>i j. i < j \<and> j < length steps \<and> Name (steps ! i) = Name (steps ! j) \<and> Name (steps ! i) \<noteq> '''')
      \<longrightarrow> validateSteps steps \<noteq> None)
   \<and> (validateSteps pre = None \<and> Image s \<noteq> '''' \<and> (Script s = '''' \<or> Command s = []) \<and>
       Name s \<noteq> '''' \<and> Name s \<in> Name ` set pre \<longrightarrow>
         validateSteps (pre @ s # rest) = Some (ErrInvalidValue (Name s) ''name''))
   \<and> (\<forall>e n. validateSteps steps = Some e \<and> Message e = InvalidValue n \<longrightarrow>
         e = ErrInvalidValue n ''name'' \<and> n \<noteq> '''' \<and>
         (\<exists>i j. i < j \<and> j < length steps \<and> Name (steps ! i) = n \<and> Name (steps ! j) = n))"
proof -
  have fails: "validateSteps steps \<noteq> None"
    if "\<exists>i j. i < j \<and> j < length steps \<and> Name (steps ! i) = Name (steps ! j) \<and> Name (steps ! i) \<noteq> ''''"
    using that validateSteps_duplicate_fails by blast
  have first: "validateSteps (pre @ s # rest) = Some (ErrInvalidValue (Name s) ''name'')"
    if a: "validateSteps pre = None \<and> Image s \<noteq> '''' \<and> (Script s = '''' \<or> Command s = []) \<and>
       Name s \<noteq> '''' \<and> Name s \<in> Name ` set pre"
  proof -
    from a have "Name s \<in> stepNames pre"
      by (simp add: stepNames_def)
    with a show ?thesis
      by (auto simp: validateSteps_def validateStepsFrom_append)
  qed
  have only: "e = ErrInvalidValue n ''name'' \<and> n \<noteq> '''' \<and>
      (\<exists>i j. i < j \<and> j < length steps \<and> Name (steps ! i) = n \<and> Name (steps ! j) = n)"
    if a: "validateSteps steps = Some e \<and> Message e = InvalidValue n" for e n
  proof -
    from a obtain pre s rest where
      steps: "steps = pre @ s # rest" and
      s: "validateStepsFrom ({} \<union> stepNames pre) (0 + length pre) [s] = Some e"
      using validateStepsFrom_Some_split [of "{}" 0 steps e] by (auto simp: validateSteps_def)
    from a have m: "Message e = InvalidValue n" by simp
    from validateStep_name_errorD [OF s m]
    have n: "n = Name s" "n \<noteq> ''''" "n \<in> stepNames pre" "e = ErrInvalidValue n ''name''"
      by auto
    from n(3) obtain i where i: "i < length pre" "Name (pre ! i) = n"
      by (auto simp: stepNames_def in_set_conv_nth)
    have "i < length pre \<and> length pre < length steps \<and> Name (steps ! i) = n \<and>
        Name (steps ! length pre) = n"
      using i n(1) steps by (simp add: nth_append)
    then have "\<exists>i j. i < j \<and> j < length steps \<and> Name (steps ! i) = n \<and> Name (steps ! j) = n"
      by blast
    with n show ?thesis by simp
  qed
  from fails first only show ?thesis by blast
qed

theorem validateSteps_duplicate_name_witness:
  "validateSteps [plainStep ''build'' ''golang'', plainStep '''' ''alpine''] = None
   \<and> Name (plainStep ''build'' ''alpine'') \<in>
       Name ` set [plainStep ''build'' ''golang'', plainStep '''' ''alpine'']
   \<and> validateSteps [plainStep ''build'' ''golang'', plainStep '''' ''alpine'',
         plainStep ''build'' ''alpine'', plainStep ''test'' ''golang''] =
       Some (ErrInvalidValue ''build'' ''name'')
   \<and> validateSteps [plainStep '''' ''golang'', plainStep '''' ''alpine''] = None"
  using validateSteps_duplicate_name
    [of "[plainStep ''build'' ''golang'', plainStep '''' ''alpine'',
          plainStep ''build'' ''alpine'', plainStep ''test'' ''golang'']"
        "[plainStep ''build'' ''golang'', plainStep '''' ''alpine'']"
        "plainStep ''build'' ''alpine''"
        "[plainStep ''test'' ''golang'']"]
  by (simp add: validateSteps_def plainStep_def HasPrefix_def)

subsection \<open>C7: script and command are mutually exclusive\<close>

text \<open>
  Claim C7 says that for every step in which both the script and the command list are
  non-empty, validation fails with the error that the two cannot be used together, and
  that a step with at most one of them passes this check. As stated it fails on a step
  that also lacks an image: \<^verbatim>\<open>validateSteps\<close> tests the image first and returns the
  missing field error.
\<close>

theorem validateSteps_script_with_command_counterexample:
  "Script (plainStep ''build'' '''' \<lparr>Command := [''go''], Script := ''go build''\<rparr>) \<noteq> ''''
   \<and> Command (plainStep ''build'' '''' \<lparr>Command := [''go''], Script := ''go build''\<rparr>) \<noteq> []
   \<and> validateSteps [plainStep ''build'' '''' \<lparr>Command := [''go''], Script := ''go build''\<rparr>] =
       Some (ErrMissingField [''Image''])
   \<and> Message (ErrMissingField [''Image'']) = MissingFields"
  by (simp add: validateSteps_def plainStep_def ErrMissingField_def)

text \<open>
  Claim C7, amended. A list of steps in which some step has both a script and a command
  fails validation. The error is the script error of that step, with its index, when
  the steps before it pass and the step has an image. The script error is returned only
  for a step in which both are non-empty, so a step with at most one of them passes this
  check.
\<close>

theorem validateSteps_script_with_command:
  "(validateSteps pre = None \<and> Image s \<noteq> '''' \<and> Script s \<noteq> '''' \<and> Command s \<noteq> [] \<longrightarrow>
      validateSteps (pre @ s # rest) =
        Some \<lparr>Message = ScriptWithCommand (length pre), Paths = [''script''], Details = ''''\<rparr>)
   \<and> ((\<exists>t\<in>set steps. Script t \<noteq> '''' \<and> Command t \<noteq> []) \<longrightarrow> validateSteps steps \<noteq> None)
   \<and> (\<forall>e i. validateSteps steps = Some e \<and> Message e = ScriptWithCommand i \<longrightarrow>
          i < length steps \<and> Script (steps ! i) \<noteq> '''' \<and> Command (steps ! i) \<noteq> [])"
proof -
  have first: "validateSteps (pre @ s # rest) =
      Some \<lparr>Message = ScriptWithCommand (length pre), Paths = [''script''], Details = ''''\<rparr>"
    if "validateSteps pre = None \<and> Image s \<noteq> '''' \<and> Script s \<noteq> '''' \<and> Command s \<noteq> []"
    using that by (simp add: validateSteps_def validateStepsFrom_append)
  have fails: "validateSteps steps \<noteq> None"
    if "\<exists>t\<in>set steps. Script t \<noteq> '''' \<and> Command t \<noteq> []"
    using that validateSteps_script_fails by blast
  have only: "i < length steps \<and> Script (steps ! i) \<noteq> '''' \<and> Command (steps ! i) \<noteq> []"
    if a: "validateSteps steps = Some e \<and> Message e = ScriptWithCommand i" for e i
  proof -
    from a obtain pre s rest where
      steps: "steps = pre @ s # rest" and
      s: "validateStepsFrom ({} \<union> stepNames pre) (0 + length pre) [s] = Some e"
      using validateStepsFrom_Some_split [of "{}" 0 steps e] by (auto simp: validateSteps_def)
    from validateStep_script_errorD [OF s] a
    have "i = length pre \<and> Script s \<noteq> '''' \<and> Command s \<noteq> []" by simp
    with steps show ?thesis by simp
  qed
  from first fails only show ?thesis by blast
qed

theorem validateSteps_script_with_command_witness:
  "validateSteps [plainStep ''fetch'' ''alpine''] = None
   \<and> Image (plainStep ''build'' ''golang'' \<lparr>Command := [''go''], Script := ''go build''\<rparr>) \<noteq> ''''
   \<and> Script (plainStep ''build'' ''golang'' \<lparr>Command := [''go''], Script := ''go build''\<rparr>) \<noteq> ''''
   \<and> Command (plainStep ''build'' ''golang'' \<lparr>Command := [''go''], Script := ''go build''\<rparr>) \<noteq> []
   \<and> validateSteps [plainStep ''fetch'' ''alpine'',
         plainStep ''build'' ''golang'' \<lparr>Command := [''go''], Script := ''go build''\<rparr>,
         plainStep ''test'' ''golang''] =
       Some \<lparr>Message = ScriptWithCommand 1, Paths = [''script''], Details = ''''\<rparr>
   \<and> validateSteps [plainStep ''build'' ''golang'' \<lparr>Script := ''go build''\<rparr>,
         plainStep ''test'' ''golang'' \<lparr>Command := [''go'', ''test'']\<rparr>,
         plainStep ''idle'' ''alpine''] = None"
  using validateSteps_script_with_command
    [of "[plainStep ''fetch'' ''alpine'']"
        "plainStep ''build'' ''golang'' \<lparr>Command := [''go''], Script := ''go build''\<rparr>"
        "[plainStep ''test'' ''golang'']"
        "[plainStep ''fetch'' ''alpine'',
          plainStep ''build'' ''golang'' \<lparr>Command := [''go''], Script := ''go build''\<rparr>,
          plainStep ''test'' ''golang'']"]
  by (simp add: validateSteps_def plainStep_def HasPrefix_def)

subsection \<open>C8: legacy and new-style parameters are mutually exclusive\<close>

text \<open>
  Claim C8 says that every specification in which the legacy list
  \<^verbatim>\<open>inputs.params\<close> and the new-style list \<^verbatim>\<open>params\<close> are both non-empty fails
  validation with the error that names the two paths, and that the check passes when at
  most one of the lists is non-empty. As stated it fails on a specification that also
  has no steps: the steps are tested long before the parameter lists, and the error is
  the missing field error on \<^verbatim>\<open>steps\<close>.
\<close>

theorem Validate_exclusive_params_counterexample:
  "Inputs (emptyTaskSpec
      \<lparr>Params := [\<lparr>psName = ''url'', psType = ''string'', psDefault = None\<rparr>],
       Inputs := Some \<lparr>inResources = [],
         inParams = [\<lparr>psName = ''revision'', psType = ''string'', psDefault = None\<rparr>]\<rparr>\<rparr>) =
     Some \<lparr>inResources = [],
         inParams = [\<lparr>psName = ''revision'', psType = ''string'', psDefault = None\<rparr>]\<rparr>
   \<and> Params (emptyTaskSpec
      \<lparr>Params := [\<lparr>psName = ''url'', psType = ''string'', psDefault = None\<rparr>],
       Inputs := Some \<lparr>inResources = [],
         inParams = [\<lparr>psName = ''revision'', psType = ''string'', psDefault = None\<rparr>]\<rparr>\<rparr>) \<noteq> []
   \<and> Validate acceptingExternals (emptyTaskSpec
      \<lparr>Params := [\<lparr>psName = ''url'', psType = ''string'', psDefault = None\<rparr>],
       Inputs := Some \<lparr>inResources = [],
         inParams = [\<lparr>psName = ''revision'', psType = ''string'', psDefault = None\<rparr>]\<rparr>\<rparr>) =
     Some (ErrMissingField [''steps''])
   \<and> ErrMissingField [''steps''] \<noteq> ErrMultipleOneOf [''inputs.params'', ''params'']"
  by (simp add: Validate_def emptyTaskSpec_def ErrMissingField_def ErrMultipleOneOf_def)

text \<open>
  Claim C8, amended. The check of the two parameter lists returns the error on
  \<^verbatim>\<open>inputs.params\<close> and \<^verbatim>\<open>params\<close> exactly when both lists are non-empty. A
  specification in which both are non-empty fails validation; the error is the one of
  this check when the checks that come before it pass: the specification has steps, the
  volumes and the declared workspaces are accepted, the step template merges, and the
  merged steps pass the step checks.
\<close>

theorem Validate_exclusive_params:
  "((validateExclusiveInputs ts = Some (ErrMultipleOneOf [''inputs.params'', ''params''])) =
      (\<exists>i. Inputs ts = Some i \<and> inParams i \<noteq> [] \<and> Params ts \<noteq> []))
   \<and> ((\<exists>i. Inputs ts = Some i \<and> inParams i \<noteq> [] \<and> Params ts \<noteq> []) \<longrightarrow> Validate ext ts \<noteq> None)
   \<and> ((\<exists>i. Inputs ts = Some i \<and> inParams i \<noteq> [] \<and> Params ts \<noteq> []) \<and> Steps ts \<noteq> [] \<and>
       ValidateVolumes (Volumes ts) = None \<and>
       validateDeclaredWorkspaces (GetMountPath ext) (Workspaces ts) (Steps ts) (StepTemplate ts) = None \<and>
       MergeStepsWithStepTemplate ext (StepTemplate ts) (Steps ts) = Inr mergedSteps \<and>
       validateSteps mergedSteps = None \<longrightarrow>
         Validate ext ts = Some (ErrMultipleOneOf [''inputs.params'', ''params'']))"
proof -
  have check: "(validateExclusiveInputs ts = Some (ErrMultipleOneOf [''inputs.params'', ''params''])) =
      (\<exists>i. Inputs ts = Some i \<and> inParams i \<noteq> [] \<and> Params ts \<noteq> [])"
    by (auto simp: validateExclusiveInputs_def ErrMultipleOneOf_def split: option.splits)
  have fails: "Validate ext ts \<noteq> None"
    if a: "\<exists>i. Inputs ts = Some i \<and> inParams i \<noteq> [] \<and> Params ts \<noteq> []"
  proof -
    from a check have "validateExclusiveInputs ts \<noteq> None" by simp
    then have "validateDeclarations ext ts \<noteq> None"
      by (auto simp: validateDeclarations_def)
    then show ?thesis
      by (auto simp: Validate_def orElse_def split: option.splits sum.splits)
  qed
  have first: "Validate ext ts = Some (ErrMultipleOneOf [''inputs.params'', ''params''])"
    if a: "(\<exists>i. Inputs ts = Some i \<and> inParams i \<noteq> [] \<and> Params ts \<noteq> []) \<and> Steps ts \<noteq> [] \<and>
       ValidateVolumes (Volumes ts) = None \<and>
       validateDeclaredWorkspaces (GetMountPath ext) (Workspaces ts) (Steps ts) (StepTemplate ts) = None \<and>
       MergeStepsWithStepTemplate ext (StepTemplate ts) (Steps ts) = Inr mergedSteps \<and>
       validateSteps mergedSteps = None"
  proof -
    from a check have "validateExclusiveInputs ts = Some (ErrMultipleOneOf [''inputs.params'', ''params''])"
      by simp
    then have "validateDeclarations ext ts = Some (ErrMultipleOneOf [''inputs.params'', ''params''])"
      by (simp add: validateDeclarations_def)
    moreover from a have "ts \<noteq> emptyTaskSpec"
      by (auto simp: emptyTaskSpec_def)
    ultimately show ?thesis
      using a by (simp add: Validate_def ViaField_def)
  qed
  from check fails first show ?thesis by blast
qed

theorem Validate_exclusive_params_witness:
  "Validate acceptingExternals (emptyTaskSpec
      \<lparr>Params := [\<lparr>psName = ''url'', psType = ''string'', psDefault = None\<rparr>],
       Steps := [plainStep ''build'' ''golang''],
       Inputs := Some \<lparr>inResources = [],
         inParams = [\<lparr>psName = ''revision'', psType = ''string'', psDefault = None\<rparr>]\<rparr>\<rparr>) =
     Some (ErrMultipleOneOf [''inputs.params'', ''params''])
   \<and> validateSteps [plainStep ''build'' ''golang''] = None
   \<and> validateExclusiveInputs (emptyTaskSpec
      \<lparr>Steps := [plainStep ''build'' ''golang''],
       Inputs := Some \<lparr>inResources = [],
         inParams = [\<lparr>psName = ''revision'', psType = ''string'', psDefault = None\<rparr>]\<rparr>\<rparr>) = None"
proof -
  let ?ts = "emptyTaskSpec
      \<lparr>Params := [\<lparr>psName = ''url'', psType = ''string'', psDefault = None\<rparr>],
       Steps := [plainStep ''build'' ''golang''],
       Inputs := Some \<lparr>inResources = [],
         inParams = [\<lparr>psName = ''revision'', psType = ''string'', psDefault = None\<rparr>]\<rparr>\<rparr>"
  have steps: "validateSteps [plainStep ''build'' ''golang''] = None"
    by (simp add: validateSteps_def plainStep_def)
  have hyp: "(\<exists>i. Inputs ?ts = Some i \<and> inParams i \<noteq> [] \<and> Params ?ts \<noteq> []) \<and> Steps ?ts \<noteq> [] \<and>
       ValidateVolumes (Volumes ?ts) = None \<and>
       validateDeclaredWorkspaces (GetMountPath acceptingExternals) (Workspaces ?ts) (Steps ?ts)
         (StepTemplate ?ts) = None \<and>
       MergeStepsWithStepTemplate acceptingExternals (StepTemplate ?ts) (Steps ?ts) =
         Inr [plainStep ''build'' ''golang''] \<and>
       validateSteps [plainStep ''build'' ''golang''] = None"
    using steps
    by (simp add: emptyTaskSpec_def ValidateVolumes_def validateDeclaredWorkspaces_def
        acceptingExternals_def)
  from Validate_exclusive_params [of ?ts acceptingExternals "[plainStep ''build'' ''golang'']"] hyp
  have "Validate acceptingExternals ?ts = Some (ErrMultipleOneOf [''inputs.params'', ''params''])"
    by blast
  moreover have "validateExclusiveInputs (emptyTaskSpec
      \<lparr>Steps := [plainStep ''build'' ''golang''],
       Inputs := Some \<lparr>inResources = [],
         inParams = [\<lparr>psName = ''revision'', psType = ''string'', psDefault = None\<rparr>]\<rparr>\<rparr>) = None"
    by (simp add: validateExclusiveInputs_def emptyTaskSpec_def)
  ultimately show ?thesis using steps by simp
qed

subsection \<open>C9: types and defaults of the legacy parameters\<close>

text \<open>
  Claim C9 says that for every legacy parameter declaration validation fails with the
  invalid value error when the declared type is not a recognised parameter type, and
  with the type mismatch error when a default is present whose type differs from the
  declared type, and that a declaration with a recognised type and a matching or absent
  default passes the check. As stated it fails on a declaration with an unrecognised
  type and a default of another type: the type is tested first, and the error is the
  invalid value error, not the type mismatch that the second part asks for.
\<close>

theorem validateInputParameterTypes_counterexample:
  "psDefault \<lparr>psName = ''flags'', psType = ''object'',
       psDefault = Some \<lparr>aosType = ''string'', aosStringVal = ''-v'', aosArrayVal = []\<rparr>\<rparr> =
     Some \<lparr>aosType = ''string'', aosStringVal = ''-v'', aosArrayVal = []\<rparr>
   \<and> aosType \<lparr>aosType = ''string'', aosStringVal = ''-v'', aosArrayVal = []\<rparr> \<noteq> ''object''
   \<and> validateInputParameterTypes \<lparr>inResources = [],
       inParams = [\<lparr>psName = ''flags'', psType = ''object'',
         psDefault = Some \<lparr>aosType = ''string'', aosStringVal = ''-v'', aosArrayVal = []\<rparr>\<rparr>]\<rparr> =
     Some (ErrInvalidValue ''object'' ''taskspec.inputs.params.flags.type'')
   \<and> Message (ErrInvalidValue ''object'' ''taskspec.inputs.params.flags.type'') =
     InvalidValue ''object''"
  by (simp add: validateInputParameterTypes_def AllParamTypes_def ParamTypeString_def
      ParamTypeArray_def ErrInvalidValue_def)

text \<open>
  Claim C9, amended. The check of the legacy parameter declarations passes exactly when
  every declaration has a recognised type (\<^verbatim>\<open>string\<close> or \<^verbatim>\<open>array\<close>) and a default,
  if present, of the declared type. Otherwise the error is that of the first
  declaration that fails: the invalid value error on its type when the declared type
  is not recognised, and the type mismatch error when the declared type is recognised
  and the default has another type.
\<close>

theorem validateInputParameterTypes_declarations:
  "((validateInputParameterTypes inputs = None) =
      (\<forall>p\<in>set (inParams inputs). psType p \<in> set AllParamTypes \<and>
         (\<forall>d. psDefault p = Some d \<longrightarrow> aosType d = psType p)))
   \<and> (inParams inputs = pre @ p # rest \<and> validateParamTypesFrom pre = None \<and>
       psType p \<notin> set AllParamTypes \<longrightarrow>
         validateInputParameterTypes inputs =
           Some (ErrInvalidValue (psType p) (''taskspec.inputs.params.'' @ psName p @ ''.type'')))
   \<and> (inParams inputs = pre @ p # rest \<and> validateParamTypesFrom pre = None \<and>
       psType p \<in> set AllParamTypes \<and> psDefault p = Some d \<and> aosType d \<noteq> psType p \<longrightarrow>
         validateInputParameterTypes inputs =
           Some \<lparr>Message = DefaultTypeMismatch (psType p) (aosType d),
                 Paths = [''taskspec.inputs.params.'' @ psName p @ ''.type'',
                          ''taskspec.inputs.params.'' @ psName p @ ''.default.type''],
                 Details = ''''\<rparr>)
   \<and> set AllParamTypes = {''string'', ''array''}"
proof -
  have pass: "(validateInputParameterTypes inputs = None) =
      (\<forall>p\<in>set (inParams inputs). psType p \<in> set AllParamTypes \<and>
         (\<forall>d. psDefault p = Some d \<longrightarrow> aosType d = psType p))"
    unfolding validateInputParameterTypes_def by (rule validateParamTypesFrom_None_iff)
  have enum: "validateInputParameterTypes inputs =
      Some (ErrInvalidValue (psType p) (''taskspec.inputs.params.'' @ psName p @ ''.type''))"
    if "inParams inputs = pre @ p # rest \<and> validateParamTypesFrom pre = None \<and>
       psType p \<notin> set AllParamTypes"
    using that
    by (simp add: validateInputParameterTypes_def validateParamTypesFrom_append Let_def
        validType_fold)
  have mismatch: "validateInputParameterTypes inputs =
      Some \<lparr>Message = DefaultTypeMismatch (psType p) (aosType d),
            Paths = [''taskspec.inputs.params.'' @ psName p @ ''.type'',
                     ''taskspec.inputs.params.'' @ psName p @ ''.default.type''],
            Details = ''''\<rparr>"
    if "inParams inputs = pre @ p # rest \<and> validateParamTypesFrom pre = None \<and>
       psType p \<in> set AllParamTypes \<and> psDefault p = Some d \<and> aosType d \<noteq> psType p"
    using that
    by (simp add: validateInputParameterTypes_def validateParamTypesFrom_append Let_def
        validType_fold)
  have types: "set AllParamTypes = {''string'', ''array''}"
    by (simp add: AllParamTypes_def ParamTypeString_def ParamTypeArray_def)
  from pass enum mismatch types show ?thesis by blast
qed

theorem validateInputParameterTypes_declarations_witness:
  "validateParamTypesFrom [\<lparr>psName = ''url'', psType = ''string'', psDefault = None\<rparr>] = None
   \<and> validateInputParameterTypes \<lparr>inResources = [],
       inParams = [\<lparr>psName = ''url'', psType = ''string'', psDefault = None\<rparr>,
         \<lparr>psName = ''flags'', psType = ''array'',
          psDefault = Some \<lparr>aosType = ''string'', aosStringVal = ''-v'', aosArrayVal = []\<rparr>\<rparr>,
         \<lparr>psName = ''mode'', psType = ''object'', psDefault = None\<rparr>]\<rparr> =
     Some \<lparr>Message = DefaultTypeMismatch ''array'' ''string'',
           Paths = [''taskspec.inputs.params.flags.type'',
                    ''taskspec.inputs.params.flags.default.type''],
           Details = ''''\<rparr>
   \<and> validateInputParameterTypes \<lparr>inResources = [],
       inParams = [\<lparr>psName = ''url'', psType = ''string'', psDefault = None\<rparr>,
         \<lparr>psName = ''mode'', psType = ''object'', psDefault = None\<rparr>]\<rparr> =
     Some (ErrInvalidValue ''object'' ''taskspec.inputs.params.mode.type'')
   \<and> validateInputParameterTypes \<lparr>inResources = [],
       inParams = [\<lparr>psName = ''url'', psType = ''string'', psDefault = None\<rparr>,
         \<lparr>psName = ''flags'', psType = ''array'',
          psDefault = Some \<lparr>aosType = ''array'', aosStringVal = '''', aosArrayVal = [''-v'']\<rparr>\<rparr>]\<rparr> =
     None"
  using validateInputParameterTypes_declarations
    [of "\<lparr>inResources = [],
       inParams = [\<lparr>psName = ''url'', psType = ''string'', psDefault = None\<rparr>,
         \<lparr>psName = ''flags'', psType = ''array'',
          psDefault = Some \<lparr>aosType = ''string'', aosStringVal = ''-v'', aosArrayVal = []\<rparr>\<rparr>,
         \<lparr>psName = ''mode'', psType = ''object'', psDefault = None\<rparr>]\<rparr>"
        "[\<lparr>psName = ''url'', psType = ''string'', psDefault = None\<rparr>]"
        "\<lparr>psName = ''flags'', psType = ''array'',
          psDefault = Some \<lparr>aosType = ''string'', aosStringVal = ''-v'', aosArrayVal = []\<rparr>\<rparr>"
        "[\<lparr>psName = ''mode'', psType = ''object'', psDefault = None\<rparr>]"
        "\<lparr>aosType = ''string'', aosStringVal = ''-v'', aosArrayVal = []\<rparr>"]
  by (simp add: validateInputParameterTypes_def AllParamTypes_def ParamTypeString_def
      ParamTypeArray_def ErrInvalidValue_def)

subsection \<open>C10: the reserved mount path is a test on the raw string\<close>

text \<open>
  Claim C10: the restriction on the mount paths of the volume mounts of a step is
  decided by prefix tests on the mount path as written. The reserved path error is
  returned only for a mount whose path starts with \<^verbatim>\<open>/tekton/\<close> and does not start
  with \<^verbatim>\<open>/tekton/home\<close>; every list of steps with such a mount fails validation; the
  loop over the mounts returns the error for a single mount exactly when its path
  passes the two prefix tests; and for a mount that the checks reach (the steps and the
  mounts before it pass, and the step passes the image, script and name tests) the
  error for this mount is returned exactly when its path passes the two prefix tests.
  So \<^verbatim>\<open>/tekton/homestead\<close> is accepted, although it is not under
  \<^verbatim>\<open>/tekton/home\<close>, and \<^verbatim>\<open>/tekton/../other\<close> is rejected, although it cleans to
  \<^verbatim>\<open>/other\<close>.
\<close>

theorem validateSteps_reserved_mount_path:
  "(\<forall>e i nm mp. validateSteps steps = Some e \<and> Message e = MountUnderTekton i nm mp \<longrightarrow>
      i < length steps \<and>
      (\<exists>vm\<in>set (VolumeMounts (steps ! i)). vmName vm = nm \<and> vmMountPath vm = mp \<and>
         HasPrefix mp ''/tekton/'' \<and> \<not> HasPrefix mp ''/tekton/home''))
   \<and> ((\<exists>t\<in>set steps. \<exists>vm\<in>set (VolumeMounts t).
         HasPrefix (vmMountPath vm) ''/tekton/'' \<and> \<not> HasPrefix (vmMountPath vm) ''/tekton/home'')
       \<longrightarrow> validateSteps steps \<noteq> None)
   \<and> ((validateVolumeMounts idx [vm] =
          Some \<lparr>Message = MountUnderTekton idx (vmName vm) (vmMountPath vm),
                Paths = [''volumeMounts.mountPath''], Details = ''''\<rparr>)
        = (HasPrefix (vmMountPath vm) ''/tekton/'' \<and> \<not> HasPrefix (vmMountPath vm) ''/tekton/home''))
   \<and> (validateSteps pre = None \<and> Image s \<noteq> '''' \<and> (Script s = '''' \<or> Command s = []) \<and>
       (Name s = '''' \<or> Name s \<notin> Name ` set pre) \<and>
       VolumeMounts s = before @ vm # after \<and> validateVolumeMounts (length pre) before = None \<longrightarrow>
         (validateSteps (pre @ s # rest) =
            Some \<lparr>Message = MountUnderTekton (length pre) (vmName vm) (vmMountPath vm),
                  Paths = [''volumeMounts.mountPath''], Details = ''''\<rparr>)
         = (HasPrefix (vmMountPath vm) ''/tekton/'' \<and> \<not> HasPrefix (vmMountPath vm) ''/tekton/home''))
   \<and> validateSteps [plainStep ''build'' ''golang''
         \<lparr>VolumeMounts := [\<lparr>vmName = ''cache'', vmMountPath = ''/tekton/homestead'', vmSubPath = ''''\<rparr>]\<rparr>]
       = None
   \<and> validateSteps [plainStep ''build'' ''golang''
         \<lparr>VolumeMounts := [\<lparr>vmName = ''cache'', vmMountPath = ''/tekton/../other'', vmSubPath = ''''\<rparr>]\<rparr>]
       = Some \<lparr>Message = MountUnderTekton 0 ''cache'' ''/tekton/../other'',
               Paths = [''volumeMounts.mountPath''], Details = ''''\<rparr>
   \<and> Clean ''/tekton/../other'' = ''/other''
   \<and> Clean ''/tekton/homestead'' = ''/tekton/homestead''"
proof -
  have only: "i < length steps \<and>
      (\<exists>vm\<in>set (VolumeMounts (steps ! i)). vmName vm = nm \<and> vmMountPath vm = mp \<and>
         HasPrefix mp ''/tekton/'' \<and> \<not> HasPrefix mp ''/tekton/home'')"
    if a: "validateSteps steps = Some e \<and> Message e = MountUnderTekton i nm mp" for e i nm mp
    using that validateSteps_path_errorD by blast
  have fails: "validateSteps steps \<noteq> None"
    if "\<exists>t\<in>set steps. \<exists>vm\<in>set (VolumeMounts t).
         HasPrefix (vmMountPath vm) ''/tekton/'' \<and> \<not> HasPrefix (vmMountPath vm) ''/tekton/home''"
    using that validateSteps_reserved_path_fails by blast
  have single: "(validateVolumeMounts idx [vm] =
          Some \<lparr>Message = MountUnderTekton idx (vmName vm) (vmMountPath vm),
                Paths = [''volumeMounts.mountPath''], Details = ''''\<rparr>)
        = (HasPrefix (vmMountPath vm) ''/tekton/'' \<and> \<not> HasPrefix (vmMountPath vm) ''/tekton/home'')"
    by simp
  have exact: "(validateSteps (pre @ s # rest) =
            Some \<lparr>Message = MountUnderTekton (length pre) (vmName vm) (vmMountPath vm),
                  Paths = [''volumeMounts.mountPath''], Details = ''''\<rparr>)
         = (HasPrefix (vmMountPath vm) ''/tekton/'' \<and> \<not> HasPrefix (vmMountPath vm) ''/tekton/home'')"
    if a: "validateSteps pre = None \<and> Image s \<noteq> '''' \<and> (Script s = '''' \<or> Command s = []) \<and>
       (Name s = '''' \<or> Name s \<notin> Name ` set pre) \<and>
       VolumeMounts s = before @ vm # after \<and> validateVolumeMounts (length pre) before = None"
  proof
    assume "validateSteps (pre @ s # rest) =
       Some \<lparr>Message = MountUnderTekton (length pre) (vmName vm) (vmMountPath vm),
             Paths = [''volumeMounts.mountPath''], Details = ''''\<rparr>"
    then have "HasPrefix (vmMountPath vm) ''/tekton/'' \<and> \<not> HasPrefix (vmMountPath vm) ''/tekton/home''"
      using validateSteps_path_errorD [of "pre @ s # rest" _ "length pre" "vmName vm" "vmMountPath vm"]
      by auto
    then show "HasPrefix (vmMountPath vm) ''/tekton/'' \<and> \<not> HasPrefix (vmMountPath vm) ''/tekton/home''"
      by simp
  next
    assume c: "HasPrefix (vmMountPath vm) ''/tekton/'' \<and> \<not> HasPrefix (vmMountPath vm) ''/tekton/home''"
    from a have nm: "Name s = '''' \<or> Name s \<notin> stepNames pre"
      by (auto simp: stepNames_def)
    have vms: "validateVolumeMounts (length pre) (VolumeMounts s) =
        Some \<lparr>Message = MountUnderTekton (length pre) (vmName vm) (vmMountPath vm),
              Paths = [''volumeMounts.mountPath''], Details = ''''\<rparr>"
      using a c by (simp add: validateVolumeMounts_append)
    show "validateSteps (pre @ s # rest) =
       Some \<lparr>Message = MountUnderTekton (length pre) (vmName vm) (vmMountPath vm),
             Paths = [''volumeMounts.mountPath''], Details = ''''\<rparr>"
      using a nm vms by (auto simp: validateSteps_def validateStepsFrom_append)
  qed
  have homestead: "validateSteps [plainStep ''build'' ''golang''
         \<lparr>VolumeMounts := [\<lparr>vmName = ''cache'', vmMountPath = ''/tekton/homestead'', vmSubPath = ''''\<rparr>]\<rparr>]
       = None"
    by (simp add: validateSteps_def plainStep_def HasPrefix_def)
  have other: "validateSteps [plainStep ''build'' ''golang''
         \<lparr>VolumeMounts := [\<lparr>vmName = ''cache'', vmMountPath = ''/tekton/../other'', vmSubPath = ''''\<rparr>]\<rparr>]
       = Some \<lparr>Message = MountUnderTekton 0 ''cache'' ''/tekton/../other'',
               Paths = [''volumeMounts.mountPath''], Details = ''''\<rparr>"
    by (simp add: validateSteps_def plainStep_def HasPrefix_def)
  have clean: "Clean ''/tekton/../other'' = ''/other''"
    "Clean ''/tekton/homestead'' = ''/tekton/homestead''"
    by (simp_all add: Clean_def)
  from only fails single exact homestead other clean show ?thesis by blast
qed

theorem validateSteps_reserved_mount_path_witness:
  "validateSteps [plainStep ''fetch'' ''alpine''] = None
   \<and> validateVolumeMounts 1 [\<lparr>vmName = ''src'', vmMountPath = ''/src'', vmSubPath = ''''\<rparr>] = None
   \<and> HasPrefix ''/tekton/tools'' ''/tekton/'' \<and> \<not> HasPrefix ''/tekton/tools'' ''/tekton/home''
   \<and> validateSteps [plainStep ''fetch'' ''alpine'',
         plainStep ''build'' ''golang''
           \<lparr>VolumeMounts := [\<lparr>vmName = ''src'', vmMountPath = ''/src'', vmSubPath = ''''\<rparr>,
                             \<lparr>vmName = ''tools'', vmMountPath = ''/tekton/tools'', vmSubPath = ''''\<rparr>]\<rparr>]
       = Some \<lparr>Message = MountUnderTekton 1 ''tools'' ''/tekton/tools'',
               Paths = [''volumeMounts.mountPath''], Details = ''''\<rparr>
   \<and> validateSteps [plainStep ''build'' ''golang''
         \<lparr>VolumeMounts := [\<lparr>vmName = ''home'', vmMountPath = ''/tekton/home/cache'', vmSubPath = ''''\<rparr>]\<rparr>]
       = None"
  using validateSteps_reserved_mount_path
    [where steps = "[plainStep ''fetch'' ''alpine'',
          plainStep ''build'' ''golang''
            \<lparr>VolumeMounts := [\<lparr>vmName = ''src'', vmMountPath = ''/src'', vmSubPath = ''''\<rparr>,
                              \<lparr>vmName = ''tools'', vmMountPath = ''/tekton/tools'', vmSubPath = ''''\<rparr>]\<rparr>]"
      and pre = "[plainStep ''fetch'' ''alpine'']"
      and s = "plainStep ''build'' ''golang''
            \<lparr>VolumeMounts := [\<lparr>vmName = ''src'', vmMountPath = ''/src'', vmSubPath = ''''\<rparr>,
                              \<lparr>vmName = ''tools'', vmMountPath = ''/tekton/tools'', vmSubPath = ''''\<rparr>]\<rparr>"
      and before = "[\<lparr>vmName = ''src'', vmMountPath = ''/src'', vmSubPath = ''''\<rparr>]"
      and vm = "\<lparr>vmName = ''tools'', vmMountPath = ''/tekton/tools'', vmSubPath = ''''\<rparr>"
      and after = "[]" and rest = "[]" and idx = 1]
  by (simp add: validateSteps_def plainStep_def HasPrefix_def)

end
